theory Spec2Isabelle
  imports Main "HOL-Library.Word"
begin

section \<open>Core types (src/core/types.ts)\<close>

text \<open>
  A thrown JavaScript \<^verbatim>\<open>Error\<close> is a value carrying its message; every function that can
  throw returns a sum with the error on the left.
\<close>

datatype js_error = Error string

datatype AdapterType = PLAYWRIGHT | HTTP

text \<open>The string values of the enum, used when an adapter type is put into a message.\<close>

fun AdapterType_str :: "AdapterType \<Rightarrow> string" where
  "AdapterType_str PLAYWRIGHT = ''playwright''"
| "AdapterType_str HTTP = ''http''"

record HealthCheckResult =
  hc_healthy :: bool
  hc_latency :: nat
  hc_error :: "string option"

section \<open>Strategy engine (src/strategy/engine.ts)\<close>

text \<open>
  \<^verbatim>\<open>StrategyMode\<close>: the members PLAYWRIGHT and HTTP are prefixed, since the adapter types
  already use these names.
\<close>

datatype StrategyMode =
  Mode_AUTO | Mode_PLAYWRIGHT | Mode_HTTP | Mode_PLAYWRIGHT_ONLY | Mode_HTTP_ONLY

record StrategyConfig =
  mode :: StrategyMode
  healthCheckInterval :: nat
  fallbackTimeout :: nat
  retryAttempts :: int

definition default_config :: StrategyConfig where
  "default_config =
     \<lparr>mode = Mode_AUTO, healthCheckInterval = 60000, fallbackTimeout = 5000, retryAttempts = 3\<rparr>"

text \<open>
  \<^verbatim>\<open>AdapterState\<close>: the handle of one adapter. The field \<open>adapter\<close> holds the adapter object;
  the two adapter objects are told apart by their type.
\<close>

record AdapterState =
  adapter :: AdapterType
  healthy :: bool
  lastHealthCheck :: nat
  consecutiveFailures :: nat

text \<open>
  The outside of the engine: \<open>'w\<close> is the state of everything the adapters talk to.
  \<open>healthCheck\<close> is \<^verbatim>\<open>IAdapter.healthCheck\<close> of the two adapter classes; both catch every
  exception and resolve with a result, so it has no error branch. \<open>Date_now\<close> is the clock.
\<close>

record 'w Adapters =
  healthCheck :: "AdapterType \<Rightarrow> 'w \<Rightarrow> HealthCheckResult \<times> 'w"
  Date_now :: "'w \<Rightarrow> nat"

text \<open>
  The engine. Next to the fields of the class it records what the engine did to the
  outside: \<open>opTrace\<close> lists the adapters the caller's operation was invoked on,
  \<open>probeTrace\<close> the adapters whose \<^verbatim>\<open>healthCheck\<close> was called, and \<open>warnings\<close> the
  \<^verbatim>\<open>Operation failed (attempt a/max)\<close> lines given to the logger, each with the attempt
  number, the maximum and the error caught. Other log lines are not recorded.
\<close>

record 'w StrategyEngine =
  config :: StrategyConfig
  adapters :: "AdapterType \<rightharpoonup> AdapterState"
  currentAdapter :: "AdapterType option"
  world :: 'w
  opTrace :: "AdapterType list"
  probeTrace :: "AdapterType list"
  warnings :: "(int \<times> int \<times> js_error) list"

text \<open>The constructor, with the configuration already merged over the defaults.\<close>

definition new_StrategyEngine :: "StrategyConfig \<Rightarrow> 'w \<Rightarrow> 'w StrategyEngine" where
  "new_StrategyEngine cfg w =
     \<lparr>config = cfg,
      adapters =
        [PLAYWRIGHT \<mapsto> \<lparr>adapter = PLAYWRIGHT, healthy = True, lastHealthCheck = 0,
                         consecutiveFailures = 0\<rparr>,
         HTTP \<mapsto> \<lparr>adapter = HTTP, healthy = True, lastHealthCheck = 0,
                   consecutiveFailures = 0\<rparr>],
      currentAdapter = None,
      world = w, opTrace = [], probeTrace = [], warnings = []\<rparr>"

definition recordSuccess :: "AdapterType \<Rightarrow> 'w StrategyEngine \<Rightarrow> 'w StrategyEngine" where
  "recordSuccess adapterType s =
     (case adapters s adapterType of
        None \<Rightarrow> s
      | Some state \<Rightarrow>
          s\<lparr>adapters := (adapters s)(adapterType \<mapsto>
               state\<lparr>consecutiveFailures := 0, healthy := True\<rparr>)\<rparr>)"

definition recordFailure :: "AdapterType \<Rightarrow> 'w StrategyEngine \<Rightarrow> 'w StrategyEngine" where
  "recordFailure adapterType s =
     (case adapters s adapterType of
        None \<Rightarrow> s
      | Some state \<Rightarrow>
          (let state1 = state\<lparr>consecutiveFailures := consecutiveFailures state + 1\<rparr>;
               state2 = (if consecutiveFailures state1 \<ge> 3
                         then state1\<lparr>healthy := False\<rparr> else state1)
           in s\<lparr>adapters := (adapters s)(adapterType \<mapsto> state2)\<rparr>))"

text \<open>
  \<^verbatim>\<open>checkAdapterHealth\<close>: stamps the handle, probes the handle's adapter and updates the
  handle from the result.
\<close>

definition checkAdapterHealth ::
  "'w Adapters \<Rightarrow> AdapterType \<Rightarrow> 'w StrategyEngine \<Rightarrow> HealthCheckResult \<times> 'w StrategyEngine"
where
  "checkAdapterHealth env adapterType s =
     (case adapters s adapterType of
        None \<Rightarrow>
          (\<lparr>hc_healthy = False, hc_latency = 0, hc_error = Some ''Adapter not found''\<rparr>, s)
      | Some state \<Rightarrow>
          (let state1 = state\<lparr>lastHealthCheck := Date_now env (world s)\<rparr>;
               (result, w') = healthCheck env (adapter state1) (world s);
               state2 =
                 (if hc_healthy result
                  then state1\<lparr>consecutiveFailures := 0, healthy := True\<rparr>
                  else (let state3 =
                              state1\<lparr>consecutiveFailures := consecutiveFailures state1 + 1\<rparr>
                        in if consecutiveFailures state3 \<ge> 3
                           then state3\<lparr>healthy := False\<rparr> else state3))
           in (result,
               s\<lparr>adapters := (adapters s)(adapterType \<mapsto> state2),
                 world := w',
                 probeTrace := probeTrace s @ [adapter state1]\<rparr>)))"

fun candidateTypes :: "StrategyMode \<Rightarrow> AdapterType list" where
  "candidateTypes Mode_PLAYWRIGHT_ONLY = [PLAYWRIGHT]"
| "candidateTypes Mode_HTTP_ONLY = [HTTP]"
| "candidateTypes Mode_PLAYWRIGHT = [PLAYWRIGHT, HTTP]"
| "candidateTypes Mode_HTTP = [HTTP, PLAYWRIGHT]"
| "candidateTypes Mode_AUTO = [HTTP, PLAYWRIGHT]"

text \<open>The first loop of \<^verbatim>\<open>selectBestAdapter\<close>: the first candidate whose handle is healthy.\<close>

fun firstHealthy :: "(AdapterType \<rightharpoonup> AdapterState) \<Rightarrow> AdapterType list \<Rightarrow> AdapterType option"
where
  "firstHealthy m [] = None"
| "firstHealthy m (t # ts) =
     (case m t of
        Some state \<Rightarrow> if healthy state then Some t else firstHealthy m ts
      | None \<Rightarrow> firstHealthy m ts)"

text \<open>The second loop: probe the candidates in order and stop at the first healthy result.\<close>

fun recoverAdapter ::
  "'w Adapters \<Rightarrow> AdapterType list \<Rightarrow> 'w StrategyEngine \<Rightarrow> AdapterType option \<times> 'w StrategyEngine"
where
  "recoverAdapter env [] s = (None, s)"
| "recoverAdapter env (t # ts) s =
     (let (result, s1) = checkAdapterHealth env t s
      in if hc_healthy result then (Some t, s1) else recoverAdapter env ts s1)"

text \<open>
  \<^verbatim>\<open>selectBestAdapter\<close> returns the value it has just stored in \<open>currentAdapter\<close>; the
  model returns the engine, from which that value is read.
\<close>

definition selectBestAdapter :: "'w Adapters \<Rightarrow> 'w StrategyEngine \<Rightarrow> 'w StrategyEngine" where
  "selectBestAdapter env s =
     (let cands = candidateTypes (mode (config s))
      in case firstHealthy (adapters s) cands of
           Some t \<Rightarrow> s\<lparr>currentAdapter := Some t\<rparr>
         | None \<Rightarrow>
             (case recoverAdapter env cands s of
                (Some t, s1) \<Rightarrow> s1\<lparr>currentAdapter := Some t\<rparr>
              | (None, s1) \<Rightarrow>
                  s1\<lparr>currentAdapter := (case cands of [] \<Rightarrow> None | c # _ \<Rightarrow> Some c)\<rparr>))"

definition getCurrentAdapter :: "'w StrategyEngine \<Rightarrow> js_error + AdapterType" where
  "getCurrentAdapter s =
     (case currentAdapter s of
        None \<Rightarrow> Inl (Error ''No adapter selected'')
      | Some t \<Rightarrow>
          (case adapters s t of
             None \<Rightarrow> Inl (Error (''Adapter not found: '' @ AdapterType_str t))
           | Some state \<Rightarrow> Inr (adapter state)))"

text \<open>
  The \<^verbatim>\<open>try\<close> block of \<^verbatim>\<open>execute\<close>: the operation runs on the current adapter; when its
  promise resolves the success is recorded for \<open>currentAdapter\<close>, when it rejects (or
  \<^verbatim>\<open>getCurrentAdapter\<close> throws) the error goes to the \<^verbatim>\<open>catch\<close> block.
\<close>

definition tryCurrent ::
  "(AdapterType \<Rightarrow> 'w \<Rightarrow> (js_error + 'a) \<times> 'w) \<Rightarrow> 'w StrategyEngine
     \<Rightarrow> (js_error + 'a) \<times> 'w StrategyEngine"
where
  "tryCurrent operation s =
     (case getCurrentAdapter s of
        Inl e \<Rightarrow> (Inl e, s)
      | Inr a \<Rightarrow>
          (case operation a (world s) of
             (Inl e, w') \<Rightarrow> (Inl e, s\<lparr>world := w', opTrace := opTrace s @ [a]\<rparr>)
           | (Inr result, w') \<Rightarrow>
               (Inr result,
                (case currentAdapter s of
                   None \<Rightarrow> s\<lparr>world := w', opTrace := opTrace s @ [a]\<rparr>
                 | Some t \<Rightarrow> recordSuccess t (s\<lparr>world := w', opTrace := opTrace s @ [a]\<rparr>)))))"

text \<open>\<^verbatim>\<open>recordFailure(this.currentAdapter!)\<close>: with no current adapter the map has no entry.\<close>

definition recordFailureCurrent :: "'w StrategyEngine \<Rightarrow> 'w StrategyEngine" where
  "recordFailureCurrent s =
     (case currentAdapter s of None \<Rightarrow> s | Some t \<Rightarrow> recordFailure t s)"

text \<open>
  The one-shot fallback inside the \<^verbatim>\<open>catch\<close> block. \<open>Some result\<close> is the early return;
  an error of the fallback is swallowed by the empty inner \<^verbatim>\<open>catch\<close>.
\<close>

definition tryFallback ::
  "bool \<Rightarrow> (AdapterType \<Rightarrow> 'w \<Rightarrow> (js_error + 'a) \<times> 'w) \<Rightarrow> 'w StrategyEngine
     \<Rightarrow> 'a option \<times> 'w StrategyEngine"
where
  "tryFallback fallbackToPlaywright operation s =
     (if fallbackToPlaywright \<and> currentAdapter s = Some HTTP then
        (case adapters s PLAYWRIGHT of
           None \<Rightarrow> (None, s)
         | Some playwrightState \<Rightarrow>
             if healthy playwrightState then
               (case operation (adapter playwrightState) (world s) of
                  (Inr result, w') \<Rightarrow>
                    (Some result,
                     recordSuccess PLAYWRIGHT
                       (s\<lparr>world := w', opTrace := opTrace s @ [adapter playwrightState]\<rparr>))
                | (Inl e, w') \<Rightarrow>
                    (None, s\<lparr>world := w', opTrace := opTrace s @ [adapter playwrightState]\<rparr>))
             else (None, s))
      else (None, s))"

text \<open>
  The \<^verbatim>\<open>catch\<close> block of \<^verbatim>\<open>execute\<close>, entered with the incremented \<open>attempts\<close> and the
  error caught: it logs the warning, records the failure for the current adapter and
  tries the fallback, whose result \<open>Some result\<close> is returned at once; otherwise it
  selects the adapter again. The final test on \<open>attempts\<close> is left to the loop.
\<close>

definition catchBlock ::
  "'w Adapters \<Rightarrow> (AdapterType \<Rightarrow> 'w \<Rightarrow> (js_error + 'a) \<times> 'w) \<Rightarrow> bool \<Rightarrow> int \<Rightarrow> int
     \<Rightarrow> js_error \<Rightarrow> 'w StrategyEngine \<Rightarrow> 'a option \<times> 'w StrategyEngine"
where
  "catchBlock env operation fallbackToPlaywright maxAttempts attempts error s1 =
     (let s2 = s1\<lparr>warnings := warnings s1 @ [(attempts, maxAttempts, error)]\<rparr>;
          s3 = recordFailureCurrent s2
      in case tryFallback fallbackToPlaywright operation s3 of
           (Some result, s4) \<Rightarrow> (Some result, s4)
         | (None, s4) \<Rightarrow> (None, selectBestAdapter env s4))"

text \<open>The \<^verbatim>\<open>while\<close> loop of \<^verbatim>\<open>execute\<close>, with the local variable \<open>attempts\<close>.\<close>

function execute_loop ::
  "'w Adapters \<Rightarrow> (AdapterType \<Rightarrow> 'w \<Rightarrow> (js_error + 'a) \<times> 'w) \<Rightarrow> bool \<Rightarrow> int \<Rightarrow> int
     \<Rightarrow> 'w StrategyEngine \<Rightarrow> (js_error + 'a) \<times> 'w StrategyEngine"
where
  "execute_loop env operation fallbackToPlaywright maxAttempts attempts s =
     (if attempts < maxAttempts then
        (case tryCurrent operation s of
           (Inr result, s1) \<Rightarrow> (Inr result, s1)
         | (Inl error, s1) \<Rightarrow>
             (case catchBlock env operation fallbackToPlaywright maxAttempts
                     (attempts + 1) error s1 of
                (Some result, s4) \<Rightarrow> (Inr result, s4)
              | (None, s5) \<Rightarrow>
                  if attempts + 1 \<ge> maxAttempts then (Inl error, s5)
                  else execute_loop env operation fallbackToPlaywright
                         maxAttempts (attempts + 1) s5))
      else (Inl (Error ''Operation failed after retries''), s))"
  by pat_completeness auto
termination
  by (relation "measure (\<lambda>(env, operation, fb, maxAttempts, attempts, s).
                  nat (maxAttempts - attempts))") auto

declare execute_loop.simps [simp del]

record ExecuteOptions =
  fallbackToPlaywright :: bool
  retryOnFailure :: bool

definition default_options :: ExecuteOptions where
  "default_options = \<lparr>fallbackToPlaywright = True, retryOnFailure = True\<rparr>"

text \<open>\<^verbatim>\<open>const maxAttempts = retryOnFailure ? this.config.retryAttempts : 1\<close>\<close>

definition maxAttemptsOf :: "ExecuteOptions \<Rightarrow> 'w StrategyEngine \<Rightarrow> int" where
  "maxAttemptsOf options s = (if retryOnFailure options then retryAttempts (config s) else 1)"

definition execute ::
  "'w Adapters \<Rightarrow> (AdapterType \<Rightarrow> 'w \<Rightarrow> (js_error + 'a) \<times> 'w) \<Rightarrow> ExecuteOptions
     \<Rightarrow> 'w StrategyEngine \<Rightarrow> (js_error + 'a) \<times> 'w StrategyEngine"
where
  "execute env operation options s =
     execute_loop env operation (fallbackToPlaywright options) (maxAttemptsOf options s) 0 s"

definition forceAdapter ::
  "'w Adapters \<Rightarrow> AdapterType \<Rightarrow> 'w StrategyEngine \<Rightarrow> (js_error + unit) \<times> 'w StrategyEngine"
where
  "forceAdapter env adapterType s =
     (case adapters s adapterType of
        None \<Rightarrow> (Inl (Error (''Unknown adapter type: '' @ AdapterType_str adapterType)), s)
      | Some state \<Rightarrow>
          if \<not> healthy state then
            (let (result, s1) = checkAdapterHealth env adapterType s
             in if \<not> hc_healthy result
                then (Inl (Error (''Adapter '' @ AdapterType_str adapterType
                                   @ '' is not healthy'')), s1)
                else (Inr (), s1\<lparr>currentAdapter := Some adapterType\<rparr>))
          else (Inr (), s\<lparr>currentAdapter := Some adapterType\<rparr>))"

text \<open>\<^verbatim>\<open>initialize\<close>, as far as the engine's own state goes: select the initial adapter.\<close>

definition initialize :: "'w Adapters \<Rightarrow> 'w StrategyEngine \<Rightarrow> 'w StrategyEngine" where
  "initialize env s = selectBestAdapter env s"

text \<open>
  The callback of the timer started by \<^verbatim>\<open>startHealthCheck\<close>: one probe per handle, in
  the order the constructor inserted the handles into the map.
\<close>

definition healthCheckTick :: "'w Adapters \<Rightarrow> 'w StrategyEngine \<Rightarrow> 'w StrategyEngine" where
  "healthCheckTick env s =
     snd (checkAdapterHealth env HTTP (snd (checkAdapterHealth env PLAYWRIGHT s)))"

section \<open>Adapter results and the default batch publish (src/adapters/base.ts)\<close>

datatype ErrorCode =
  AUTH_REQUIRED | AUTH_FAILED | TOKEN_EXPIRED | TOKEN_INVALID
| NETWORK_ERROR | REQUEST_TIMEOUT | RATE_LIMITED
| INVALID_RESPONSE | PARSE_ERROR | VALIDATION_ERROR
| LOGIN_FAILED | UPLOAD_FAILED | PUBLISH_FAILED
| PLATFORM_ERROR | CAPTCHA_REQUIRED | UNKNOWN_ERROR

text \<open>An optional field of an interface is an \<open>option\<close>: \<open>None\<close> is \<^verbatim>\<open>undefined\<close>.\<close>

record 'd AdapterResult =
  success :: bool
  data :: "'d option"
  error :: "string option"
  errorCode :: "ErrorCode option"

record PublishResult =
  pr_success :: bool
  resourceId :: string
  publishedUrl :: "string option"
  pr_error :: "string option"

definition success_result :: "'d \<Rightarrow> 'd AdapterResult" where
  "success_result d = \<lparr>success = True, data = Some d, error = None, errorCode = None\<rparr>"

definition failure :: "string \<Rightarrow> ErrorCode option \<Rightarrow> 'd AdapterResult" where
  "failure err code = \<lparr>success = False, data = None, error = Some err, errorCode = code\<rparr>"

text \<open>\<^verbatim>\<open>errors.join('; ')\<close>\<close>

fun join :: "string \<Rightarrow> string list \<Rightarrow> string" where
  "join sep [] = []"
| "join sep [x] = x"
| "join sep (x # y # ys) = x @ sep @ join sep (y # ys)"

text \<open>
  \<^verbatim>\<open>result.error || `Failed to publish resource ${resourceId}`\<close>: an absent and an empty
  error message are both falsy.
\<close>

definition publishErrorMessage :: "string option \<Rightarrow> string \<Rightarrow> string" where
  "publishErrorMessage err rid =
     (case err of
        None \<Rightarrow> ''Failed to publish resource '' @ rid
      | Some e \<Rightarrow> if e = [] then ''Failed to publish resource '' @ rid else e)"

text \<open>
  The \<^verbatim>\<open>for\<close> loop of \<^verbatim>\<open>publishResources\<close> with its two accumulators. The abstract
  \<^verbatim>\<open>publishResource\<close> of the subclass is the parameter \<open>publishResource\<close>; it acts on
  the outside world \<open>'w\<close> and resolves with a result or rejects. The loop awaits it
  outside any \<^verbatim>\<open>try\<close>, so a rejection leaves the loop and \<^verbatim>\<open>publishResources\<close> at once
  and the accumulators are lost. \<^verbatim>\<open>result.data\<close> is an object when present, hence
  truthy.
\<close>

fun publishLoop ::
  "(string \<Rightarrow> 'o \<Rightarrow> 'w \<Rightarrow> (js_error + PublishResult AdapterResult) \<times> 'w) \<Rightarrow> 'o \<Rightarrow> string list
     \<Rightarrow> PublishResult list \<Rightarrow> string list \<Rightarrow> 'w
     \<Rightarrow> (js_error + PublishResult list \<times> string list) \<times> 'w"
where
  "publishLoop publishResource options [] results errors w = (Inr (results, errors), w)"
| "publishLoop publishResource options (rid # rids) results errors w =
     (case publishResource rid options w of
        (Inl e, w') \<Rightarrow> (Inl e, w')
      | (Inr result, w') \<Rightarrow>
          if success result \<and> data result \<noteq> None
          then publishLoop publishResource options rids
                 (results @ [the (data result)]) errors w'
          else publishLoop publishResource options rids
                 (results @ [\<lparr>pr_success = False, resourceId = rid, publishedUrl = None,
                               pr_error = error result\<rparr>])
                 (errors @ [publishErrorMessage (error result) rid]) w')"

definition publishResources ::
  "(string \<Rightarrow> 'o \<Rightarrow> 'w \<Rightarrow> (js_error + PublishResult AdapterResult) \<times> 'w) \<Rightarrow> string list \<Rightarrow> 'o
     \<Rightarrow> 'w \<Rightarrow> (js_error + PublishResult list AdapterResult) \<times> 'w"
where
  "publishResources publishResource resourceIds options w =
     (case publishLoop publishResource options resourceIds [] [] w of
        (Inl e, w') \<Rightarrow> (Inl e, w')
      | (Inr (results, errors), w') \<Rightarrow>
          (Inr \<lparr>success = (length errors = 0),
                data = Some results,
                error = (if length errors > 0 then Some (join ''; '' errors) else None),
                errorCode = None\<rparr>, w'))"

text \<open>
  \<^verbatim>\<open>HttpAdapter.publishResource\<close> (src/adapters/http.adapter.ts). The parameter \<open>post\<close>
  is the request \<^verbatim>\<open>this.post(path, body)\<close>, which resolves with the body of the answer,
  \<^verbatim>\<open>{ success: boolean; url?: string }\<close>, or rejects. The method wraps the answer into a
  successful result whose data carries the answer's own \<open>success\<close>; a rejection is
  caught and turned into a failed result by \<^verbatim>\<open>handleException\<close>.
\<close>

record PublishResponse =
  resp_success :: bool
  resp_url :: "string option"

definition HttpAdapter_publishResource ::
  "(string \<Rightarrow> 'o \<Rightarrow> 'w \<Rightarrow> (js_error + PublishResponse) \<times> 'w) \<Rightarrow> string \<Rightarrow> 'o \<Rightarrow> 'w
     \<Rightarrow> (js_error + PublishResult AdapterResult) \<times> 'w"
where
  "HttpAdapter_publishResource post rid options w =
     (case post (''/episodes/'' @ rid @ ''/publish'') options w of
        (Inr response, w') \<Rightarrow>
          (Inr (success_result \<lparr>pr_success = resp_success response, resourceId = rid,
                                publishedUrl = resp_url response, pr_error = None\<rparr>), w')
      | (Inl (Error msg), w') \<Rightarrow> (Inr (failure msg None), w'))"

text \<open>
  Descriptions used to state what the batch returns: the results of the per-item calls
  made in order (the error of the first call that rejects, if one does), whether an
  item's result counts as succeeded, the entry an item gets from its result, and the
  overall result built from the items' results.
\<close>

fun itemResults ::
  "(string \<Rightarrow> 'o \<Rightarrow> 'w \<Rightarrow> (js_error + PublishResult AdapterResult) \<times> 'w) \<Rightarrow> 'o \<Rightarrow> string list
     \<Rightarrow> 'w \<Rightarrow> js_error + PublishResult AdapterResult list"
where
  "itemResults publishResource options [] w = Inr []"
| "itemResults publishResource options (rid # rids) w =
     (case publishResource rid options w of
        (Inl e, w') \<Rightarrow> Inl e
      | (Inr result, w') \<Rightarrow>
          (case itemResults publishResource options rids w' of
             Inl e \<Rightarrow> Inl e
           | Inr rs \<Rightarrow> Inr (result # rs)))"

definition itemSucceeded :: "PublishResult AdapterResult \<Rightarrow> bool" where
  "itemSucceeded result \<longleftrightarrow> success result \<and> data result \<noteq> None"

definition itemEntry :: "string \<Rightarrow> PublishResult AdapterResult \<Rightarrow> PublishResult" where
  "itemEntry rid result =
     (if itemSucceeded result then the (data result)
      else \<lparr>pr_success = False, resourceId = rid, publishedUrl = None,
             pr_error = error result\<rparr>)"

definition batchResult ::
  "string list \<Rightarrow> PublishResult AdapterResult list \<Rightarrow> PublishResult list AdapterResult"
where
  "batchResult rids rs =
     \<lparr>success = list_all itemSucceeded rs,
      data = Some (map2 itemEntry rids rs),
      error =
        (if list_all itemSucceeded rs then None
         else Some (join ''; ''
                      (map (\<lambda>(rid, result). publishErrorMessage (error result) rid)
                         (filter (\<lambda>(rid, result). \<not> itemSucceeded result) (zip rids rs))))),
      errorCode = None\<rparr>"

section \<open>Crypto utilities (src/storage/crypto.ts)\<close>

type_synonym byte = "8 word"

text \<open>
  A JavaScript string is a sequence of 16-bit code units. It is well formed when every
  surrogate is part of a pair, a high surrogate followed by a low one.
  \<open>toWellFormed\<close> is \<^verbatim>\<open>String.prototype.toWellFormed\<close>: it replaces every unpaired
  surrogate by U+FFFD.
\<close>

type_synonym js_string = "16 word list"





definition KEY_LENGTH :: nat where "KEY_LENGTH = 32"
definition IV_LENGTH :: nat where "IV_LENGTH = 16"
definition SALT_LENGTH :: nat where "SALT_LENGTH = 64"
definition TAG_LENGTH :: nat where "TAG_LENGTH = 16"
definition ITERATIONS :: nat where "ITERATIONS = 100000"

text \<open>
  The functions of the Node.js runtime that \<^verbatim>\<open>CryptoUtil\<close> and \<^verbatim>\<open>TokenStorage\<close> call;
  they are not code of the repository and are parameters of the model.
  \<^item> \<open>pbkdf2Sync password salt iterations keylen\<close>, with digest sha256;
  \<^item> \<open>gcm_seal key iv plaintext\<close>: \<^verbatim>\<open>createCipheriv('aes-256-gcm', key, iv)\<close>,
    \<^verbatim>\<open>update\<close>, \<^verbatim>\<open>final\<close> and \<^verbatim>\<open>getAuthTag\<close>, giving the ciphertext and the tag;
  \<^item> \<open>gcm_open key iv tag ciphertext\<close>: \<^verbatim>\<open>createDecipheriv\<close>, \<^verbatim>\<open>setAuthTag\<close>,
    \<^verbatim>\<open>update\<close> and \<^verbatim>\<open>final\<close>; \<open>None\<close> when any of them throws (the tag does not
    verify, or a length is not accepted);
  \<^item> the codecs of \<^verbatim>\<open>Buffer\<close>: utf8, hex and base64, in both directions;
  \<^item> \<^verbatim>\<open>JSON.stringify(x, null, 2)\<close> and \<^verbatim>\<open>JSON.parse\<close> at the type of a stored token;
    \<open>None\<close> when \<^verbatim>\<open>JSON.parse\<close> throws.

  A buffer is a list of bytes. The plaintext, which the utf8 codec turns into bytes and
  back, is a JavaScript string. A passphrase is given by the bytes handed to the key
  derivation, and a hex or base64 text by its characters; both are a \<open>string\<close>.
\<close>

record 'tok platform =
  pbkdf2Sync :: "string \<Rightarrow> byte list \<Rightarrow> nat \<Rightarrow> nat \<Rightarrow> byte list"
  gcm_seal :: "byte list \<Rightarrow> byte list \<Rightarrow> byte list \<Rightarrow> byte list \<times> byte list"
  gcm_open :: "byte list \<Rightarrow> byte list \<Rightarrow> byte list \<Rightarrow> byte list \<Rightarrow> byte list option"
  utf8_bytes :: "js_string \<Rightarrow> byte list"
  utf8_string :: "byte list \<Rightarrow> js_string"
  hex_string :: "byte list \<Rightarrow> string"
  hex_bytes :: "string \<Rightarrow> byte list"
  base64_string :: "byte list \<Rightarrow> string"
  base64_bytes :: "string \<Rightarrow> byte list"
  JSON_stringify :: "'tok \<Rightarrow> js_string"
  JSON_parse :: "js_string \<Rightarrow> 'tok option"

text \<open>
  What the runtime documents about these functions: the derived key has the requested
  length, the tag of GCM has 16 bytes (the default \<^verbatim>\<open>authTagLength\<close>), decryption under
  the same key, IV and tag gives the plaintext back, and the hex and base64 codecs
  decode what they encoded.
\<close>

definition platform_contract :: "'tok platform \<Rightarrow> bool" where
  "platform_contract pf \<longleftrightarrow>
     (\<forall>password salt iterations keylen.
        length (pbkdf2Sync pf password salt iterations keylen) = keylen)
   \<and> (\<forall>key iv m. length (snd (gcm_seal pf key iv m)) = 16)
   \<and> (\<forall>key iv m. length key = 32 \<longrightarrow> length iv = 16 \<longrightarrow>
        gcm_open pf key iv (snd (gcm_seal pf key iv m)) (fst (gcm_seal pf key iv m)) = Some m)
   \<and> (\<forall>bs. hex_bytes pf (hex_string pf bs) = bs)
   \<and> (\<forall>bs. base64_bytes pf (base64_string pf bs) = bs)"




definition deriveKey :: "'tok platform \<Rightarrow> string \<Rightarrow> byte list \<Rightarrow> byte list" where
  "deriveKey pf password salt = pbkdf2Sync pf password salt ITERATIONS KEY_LENGTH"

text \<open>
  \<^verbatim>\<open>encrypt\<close>. The two calls of \<^verbatim>\<open>crypto.randomBytes\<close> are the arguments \<open>salt\<close> and
  \<open>iv\<close>. None of the calls in the \<^verbatim>\<open>try\<close> block throws on these arguments, so the
  \<^verbatim>\<open>catch\<close> branch is never taken and the result is always \<open>Inr\<close>.
\<close>

definition encrypt ::
  "'tok platform \<Rightarrow> js_string \<Rightarrow> string \<Rightarrow> byte list \<Rightarrow> byte list \<Rightarrow> js_error + string"
where
  "encrypt pf data_in password salt iv =
     (let key = deriveKey pf password salt;
          (ct, tag) = gcm_seal pf key iv (utf8_bytes pf data_in);
          encrypted = hex_string pf ct;
          combined = salt @ iv @ tag @ hex_bytes pf encrypted
      in Inr (base64_string pf combined))"

text \<open>\<^verbatim>\<open>Buffer.subarray(start, end)\<close> clamps both indices to the length.\<close>

definition subarray :: "byte list \<Rightarrow> nat \<Rightarrow> nat \<Rightarrow> byte list" where
  "subarray b start stop = take (stop - start) (drop start b)"

definition decrypt :: "'tok platform \<Rightarrow> string \<Rightarrow> string \<Rightarrow> js_error + js_string" where
  "decrypt pf encryptedData password =
     (let combined = base64_bytes pf encryptedData;
          salt = subarray combined 0 SALT_LENGTH;
          iv = subarray combined SALT_LENGTH (SALT_LENGTH + IV_LENGTH);
          tag = subarray combined (SALT_LENGTH + IV_LENGTH)
                  (SALT_LENGTH + IV_LENGTH + TAG_LENGTH);
          encrypted = drop (SALT_LENGTH + IV_LENGTH + TAG_LENGTH) combined;
          key = deriveKey pf password salt
      in case gcm_open pf key iv tag encrypted of
           None \<Rightarrow>
             Inl (Error ''Failed to decrypt data - invalid password or corrupted data'')
         | Some decrypted \<Rightarrow> Inr (utf8_string pf decrypted))"

text \<open>\<^verbatim>\<open>Buffer.from(s, 'base64')\<close> never throws, so only the length decides.\<close>

definition verifyIntegrity :: "'tok platform \<Rightarrow> string \<Rightarrow> bool" where
  "verifyIntegrity pf encryptedData =
     (let combined = base64_bytes pf encryptedData;
          minLength = SALT_LENGTH + IV_LENGTH + TAG_LENGTH
      in if length combined < minLength then False else True)"

section \<open>Token storage (src/storage/token.ts)\<close>

record StoredToken =
  token :: string
  tok_userId :: string
  tok_userName :: string
  expiresAt :: int
  createdAt :: int
  updatedAt :: int

text \<open>
  The storage object with the one file it owns: \<open>tokenFile\<close> is the content of
  \<^verbatim>\<open>token.encrypted\<close>, \<open>None\<close> when the file does not exist. File operations on an
  existing directory are taken to succeed.
\<close>

record TokenStorage =
  password :: string
  tokenFile :: "string option"

definition token_exists :: "TokenStorage \<Rightarrow> bool" where
  "token_exists ts \<longleftrightarrow> tokenFile ts \<noteq> None"

definition token_save ::
  "StoredToken platform \<Rightarrow> StoredToken \<Rightarrow> byte list \<Rightarrow> byte list \<Rightarrow> TokenStorage
     \<Rightarrow> (js_error + unit) \<times> TokenStorage"
where
  "token_save pf tokenData salt iv ts =
     (case encrypt pf (JSON_stringify pf tokenData) (password ts) salt iv of
        Inl e \<Rightarrow> (Inl (Error ''Failed to save token''), ts)
      | Inr encrypted \<Rightarrow> (Inr (), ts\<lparr>tokenFile := Some encrypted\<rparr>))"

definition token_clear :: "TokenStorage \<Rightarrow> TokenStorage" where
  "token_clear ts = (if token_exists ts then ts\<lparr>tokenFile := None\<rparr> else ts)"

text \<open>
  \<^verbatim>\<open>load\<close>: \<open>None\<close> is \<^verbatim>\<open>null\<close>. An error of \<^verbatim>\<open>decrypt\<close> or \<^verbatim>\<open>JSON.parse\<close> is caught by
  the outer \<^verbatim>\<open>catch\<close>, which logs and returns \<^verbatim>\<open>null\<close>.
\<close>

definition token_load ::
  "StoredToken platform \<Rightarrow> TokenStorage \<Rightarrow> StoredToken option \<times> TokenStorage"
where
  "token_load pf ts =
     (case tokenFile ts of
        None \<Rightarrow> (None, ts)
      | Some encrypted \<Rightarrow>
          if \<not> verifyIntegrity pf encrypted then (None, token_clear ts)
          else (case decrypt pf encrypted (password ts) of
                  Inl e \<Rightarrow> (None, ts)
                | Inr decrypted \<Rightarrow>
                    (case JSON_parse pf decrypted of
                       None \<Rightarrow> (None, ts)
                     | Some tokenData \<Rightarrow> (Some tokenData, ts))))"

section \<open>Session storage and authentication manager\<close>

text \<open>
  \<^verbatim>\<open>SessionStorage\<close> (src/storage/session.ts), browser-based part. A file is modelled by
  what \<^verbatim>\<open>JSON.parse\<close> makes of its content: \<open>Parses v\<close> when it yields the value \<open>v\<close>,
  \<open>Malformed\<close> when reading or parsing throws.
\<close>

datatype 'v json_file = Parses 'v | Malformed

text \<open>
  A JavaScript value, as far as the code looks at it: \<^verbatim>\<open>undefined\<close>, a string, or any
  other value, kept by its JSON text. The fields of the user info are declared as
  strings, but \<^verbatim>\<open>loadUserInfo\<close> casts what it parsed without a check, so a field holds
  whatever the file gave.
\<close>

datatype json_value = JUndefined | JString string | JOther string

text \<open>
  What \<^verbatim>\<open>JSON.parse\<close> made of the user info file, as far as \<^verbatim>\<open>loadUserInfo\<close> looks at it:
  \<^verbatim>\<open>null\<close>, on which the property access throws, or any other value with what its
  properties \<^verbatim>\<open>userId\<close> and \<^verbatim>\<open>userName\<close> give (\<open>JUndefined\<close> for a property it does not
  have).
\<close>

datatype parsed_user_info = JsonNull | JsonValue json_value json_value

record UserInfo =
  userId :: json_value
  userName :: json_value

record 'st SessionStorage =
  browserStateFile :: "'st json_file option"
  userInfoFile :: "parsed_user_info json_file option"

definition hasValidSession :: "'st SessionStorage \<Rightarrow> bool" where
  "hasValidSession ss \<longleftrightarrow> browserStateFile ss \<noteq> None \<and> userInfoFile ss \<noteq> None"

definition loadUserInfo :: "'st SessionStorage \<Rightarrow> UserInfo option" where
  "loadUserInfo ss =
     (case userInfoFile ss of
        None \<Rightarrow> None
      | Some Malformed \<Rightarrow> None
      | Some (Parses JsonNull) \<Rightarrow> None
      | Some (Parses (JsonValue uid uname)) \<Rightarrow> Some \<lparr>userId = uid, userName = uname\<rparr>)"

definition saveBrowserState :: "'st \<Rightarrow> 'st SessionStorage \<Rightarrow> 'st SessionStorage" where
  "saveBrowserState st ss = ss\<lparr>browserStateFile := Some (Parses st)\<rparr>"

text \<open>\<^verbatim>\<open>JSON.stringify\<close> leaves out a property that is \<^verbatim>\<open>undefined\<close>, which reads back as
  \<^verbatim>\<open>undefined\<close>.\<close>

definition saveUserInfo :: "UserInfo \<Rightarrow> 'st SessionStorage \<Rightarrow> 'st SessionStorage" where
  "saveUserInfo u ss = ss\<lparr>userInfoFile := Some (Parses (JsonValue (userId u) (userName u)))\<rparr>"

text \<open>
  \<^verbatim>\<open>AuthManager\<close> (src/core/auth.ts). \<open>'b\<close> is the browser side (browser, context and
  page), \<open>loginFlows\<close> lists the login flows that were started, each of which launches
  a browser.
\<close>

text \<open>\<open>OTHER_METHOD\<close> stands for a value outside the enum, which reaches the \<^verbatim>\<open>default\<close>
  branch of \<^verbatim>\<open>login\<close>.\<close>

datatype LoginMethod = QR_CODE | PHONE_CODE | OTHER_METHOD string

fun LoginMethod_str :: "LoginMethod \<Rightarrow> string" where
  "LoginMethod_str QR_CODE = ''qr_code''"
| "LoginMethod_str PHONE_CODE = ''phone_code''"
| "LoginMethod_str (OTHER_METHOD m) = m"

text \<open>\<^verbatim>\<open>AuthResult\<close>: \<open>auth_userId\<close> and \<open>auth_userName\<close> are \<open>JUndefined\<close> when the result has
  no such field or the field is \<^verbatim>\<open>undefined\<close>.\<close>

record AuthResult =
  auth_success :: bool
  auth_userId :: json_value
  auth_userName :: json_value
  auth_error :: "string option"

record ('b, 'st) AuthManager =
  sessionStorage :: "'st SessionStorage"
  userInfo :: "UserInfo option"
  browser :: 'b
  loginFlows :: "LoginMethod list"

text \<open>
  The browser-driven parts are parameters: the two login flows, which return whether the
  login succeeded (or reject) and leave a new cached user info and browser side, and
  \<^verbatim>\<open>context.storageState()\<close>, \<open>None\<close> when there is no context or the call throws.
\<close>

record ('b, 'st) Browser =
  loginByQRCode :: "UserInfo option \<Rightarrow> 'b \<Rightarrow> (js_error + bool) \<times> UserInfo option \<times> 'b"
  loginByPhoneCode :: "UserInfo option \<Rightarrow> 'b \<Rightarrow> (js_error + bool) \<times> UserInfo option \<times> 'b"
  storageState :: "'b \<Rightarrow> 'st option"

definition saveSession ::
  "('b, 'st) Browser \<Rightarrow> ('b, 'st) AuthManager \<Rightarrow> ('b, 'st) AuthManager"
where
  "saveSession br am =
     (case storageState br (browser am) of
        None \<Rightarrow> am
      | Some st \<Rightarrow>
          (let ss1 = saveBrowserState st (sessionStorage am);
               ss2 = (case userInfo am of None \<Rightarrow> ss1 | Some u \<Rightarrow> saveUserInfo u ss1)
           in am\<lparr>sessionStorage := ss2\<rparr>))"

record LoginOptions =
  force :: bool
  loginMethod :: LoginMethod

definition default_login_options :: LoginOptions where
  "default_login_options = \<lparr>force = False, loginMethod = QR_CODE\<rparr>"

text \<open>\<^verbatim>\<open>this.userInfo?.userId\<close>\<close>

definition cachedUserId :: "UserInfo option \<Rightarrow> json_value" where
  "cachedUserId cached = (case cached of None \<Rightarrow> JUndefined | Some u \<Rightarrow> userId u)"

definition cachedUserName :: "UserInfo option \<Rightarrow> json_value" where
  "cachedUserName cached = (case cached of None \<Rightarrow> JUndefined | Some u \<Rightarrow> userName u)"

definition authResultOk :: "('b, 'st) AuthManager \<Rightarrow> AuthResult" where
  "authResultOk am =
     \<lparr>auth_success = True,
      auth_userId = cachedUserId (userInfo am),
      auth_userName = cachedUserName (userInfo am),
      auth_error = None\<rparr>"

definition authResultFailed :: "string \<Rightarrow> AuthResult" where
  "authResultFailed msg =
     \<lparr>auth_success = False, auth_userId = JUndefined, auth_userName = JUndefined,
      auth_error = Some msg\<rparr>"

text \<open>The part of \<^verbatim>\<open>login\<close> after a flow has returned.\<close>

definition afterFlow ::
  "('b, 'st) Browser \<Rightarrow> LoginMethod
     \<Rightarrow> (js_error + bool) \<times> UserInfo option \<times> 'b \<Rightarrow> ('b, 'st) AuthManager
     \<Rightarrow> AuthResult \<times> ('b, 'st) AuthManager"
where
  "afterFlow br m outcome am =
     (case outcome of
        (r, u, b) \<Rightarrow>
          (let am1 = am\<lparr>userInfo := u, browser := b, loginFlows := loginFlows am @ [m]\<rparr>
           in case r of
                Inl (Error msg) \<Rightarrow>
                  (authResultFailed (if msg = [] then ''Unknown error'' else msg), am1)
              | Inr loginSuccess \<Rightarrow>
                  if \<not> loginSuccess then (authResultFailed ''Login failed'', am1)
                  else (let am2 = saveSession br am1 in (authResultOk am2, am2))))"

definition login ::
  "('b, 'st) Browser \<Rightarrow> LoginOptions \<Rightarrow> ('b, 'st) AuthManager
     \<Rightarrow> AuthResult \<times> ('b, 'st) AuthManager"
where
  "login br options am =
     (if \<not> force options \<and> hasValidSession (sessionStorage am) then
        (let am1 = (case loadUserInfo (sessionStorage am) of
                      None \<Rightarrow> am
                    | Some savedUserInfo \<Rightarrow> am\<lparr>userInfo := Some savedUserInfo\<rparr>)
         in (authResultOk am1, am1))
      else
        (case loginMethod options of
           QR_CODE \<Rightarrow> afterFlow br QR_CODE (loginByQRCode br (userInfo am) (browser am)) am
         | PHONE_CODE \<Rightarrow>
             afterFlow br PHONE_CODE (loginByPhoneCode br (userInfo am) (browser am)) am
         | OTHER_METHOD m \<Rightarrow>
             (authResultFailed
                (''Unsupported login method: '' @ LoginMethod_str (loginMethod options)), am)))"

section \<open>Example adapters and operations\<close>

text \<open>
  Concrete surroundings for the engine, used to run it on explicit inputs. The world is
  the number of operation calls made so far. \<open>static_env up\<close> is a pair of adapters whose
  health probe reports \<open>up t\<close> for adapter \<open>t\<close>.
\<close>

definition static_env :: "(AdapterType \<Rightarrow> bool) \<Rightarrow> nat Adapters" where
  "static_env up =
     \<lparr>healthCheck = (\<lambda>t w. (\<lparr>hc_healthy = up t, hc_latency = 0,
                               hc_error = (if up t then None else Some ''unreachable'')\<rparr>, w)),
      Date_now = (\<lambda>w. w)\<rparr>"

text \<open>An operation that rejects on every adapter; the error names the adapter and, in
  unary, the number of earlier calls.\<close>

definition failing_op :: "AdapterType \<Rightarrow> nat \<Rightarrow> (js_error + AdapterType) \<times> nat" where
  "failing_op a n = (Inl (Error (AdapterType_str a @ ''#'' @ replicate n CHR ''I'')), Suc n)"

text \<open>An operation that resolves with the type of the adapter it ran on.\<close>

definition echo_op :: "AdapterType \<Rightarrow> nat \<Rightarrow> (js_error + AdapterType) \<times> nat" where
  "echo_op a n = (Inr a, Suc n)"

text \<open>An operation that rejects on the HTTP adapter and resolves on the Playwright adapter.\<close>

definition http_down_op :: "AdapterType \<Rightarrow> nat \<Rightarrow> (js_error + AdapterType) \<times> nat" where
  "http_down_op a n = (if a = HTTP then Inl (Error ''http down'') else Inr a, Suc n)"

text \<open>An operation that resolves with a failed \<^verbatim>\<open>AdapterResult\<close>, as \<^verbatim>\<open>BaseAdapter.failure\<close>
  builds it.\<close>

definition rate_limited_op ::
  "AdapterType \<Rightarrow> nat \<Rightarrow> (js_error + unit AdapterResult) \<times> nat"
where
  "rate_limited_op a n = (Inr (failure ''rate limited'' (Some RATE_LIMITED)), Suc n)"

text \<open>An operation that rejects on the HTTP adapter and resolves with a failed
  \<^verbatim>\<open>AdapterResult\<close> on the Playwright adapter.\<close>

definition http_rejects_op ::
  "AdapterType \<Rightarrow> nat \<Rightarrow> (js_error + unit AdapterResult) \<times> nat"
where
  "http_rejects_op a n =
     (if a = HTTP then Inl (Error ''http down'')
      else Inr (failure ''rate limited'' (Some RATE_LIMITED)), Suc n)"

text \<open>The engine after \<^verbatim>\<open>initialize\<close> with the default configuration.\<close>

definition fresh_engine :: "nat StrategyEngine" where
  "fresh_engine = initialize (static_env (\<lambda>t. True)) (new_StrategyEngine default_config 0)"

text \<open>The same engine after three timer ticks during which the HTTP adapter was
  unreachable and the Playwright adapter was reachable.\<close>

definition http_outage_engine :: "nat StrategyEngine" where
  "http_outage_engine =
     healthCheckTick (static_env (\<lambda>t. t = PLAYWRIGHT))
       (healthCheckTick (static_env (\<lambda>t. t = PLAYWRIGHT))
          (healthCheckTick (static_env (\<lambda>t. t = PLAYWRIGHT)) fresh_engine))"

text \<open>The engine as the constructor leaves it, before \<^verbatim>\<open>initialize\<close>.\<close>

definition constructed_engine :: "nat StrategyEngine" where
  "constructed_engine = new_StrategyEngine default_config 0"

section \<open>Example adapter, session store and browser\<close>

text \<open>A \<^verbatim>\<open>publishResource\<close> that fails for the resource "b" and publishes every other one;
  the world counts the calls.\<close>

definition demo_publish ::
  "string \<Rightarrow> unit \<Rightarrow> nat \<Rightarrow> (js_error + PublishResult AdapterResult) \<times> nat"
where
  "demo_publish rid options w =
     (Inr (if rid = ''b'' then failure ''quota exceeded'' None
           else success_result \<lparr>pr_success = True, resourceId = rid,
                                publishedUrl = Some (''https://example.org/'' @ rid),
                                pr_error = None\<rparr>),
      Suc w)"

text \<open>A \<^verbatim>\<open>publishResource\<close> that rejects for the resource "b" and publishes every other
  one.\<close>

definition demo_publish_rejecting ::
  "string \<Rightarrow> unit \<Rightarrow> nat \<Rightarrow> (js_error + PublishResult AdapterResult) \<times> nat"
where
  "demo_publish_rejecting rid options w =
     (if rid = ''b'' then Inl (Error ''socket hang up'')
      else Inr (success_result \<lparr>pr_success = True, resourceId = rid,
                                 publishedUrl = Some (''https://example.org/'' @ rid),
                                 pr_error = None\<rparr>),
      Suc w)"

text \<open>A server that answers every publish request, with \<^verbatim>\<open>success: false\<close> for the
  resource "b" and with \<^verbatim>\<open>success: true\<close> and a URL for every other one.\<close>

definition demo_post :: "string \<Rightarrow> unit \<Rightarrow> nat \<Rightarrow> (js_error + PublishResponse) \<times> nat" where
  "demo_post path options w =
     (Inr (if path = ''/episodes/b/publish''
           then \<lparr>resp_success = False, resp_url = None\<rparr>
           else \<lparr>resp_success = True, resp_url = Some (''https://example.org'' @ path)\<rparr>),
      Suc w)"

text \<open>A browser whose login flows succeed and extract the user "u1".\<close>

definition demo_browser :: "(unit, unit) Browser" where
  "demo_browser =
     \<lparr>loginByQRCode =
        (\<lambda>u b. (Inr True, Some \<lparr>userId = JString ''u1'', userName = JString ''Ann''\<rparr>, b)),
      loginByPhoneCode =
        (\<lambda>u b. (Inr True, Some \<lparr>userId = JString ''u1'', userName = JString ''Ann''\<rparr>, b)),
      storageState = (\<lambda>b. Some ())\<rparr>"

text \<open>A manager with nothing cached in memory whose store holds both files, the user
  info file readable.\<close>

definition saved_manager :: "(unit, unit) AuthManager" where
  "saved_manager =
     \<lparr>sessionStorage =
        \<lparr>browserStateFile = Some (Parses ()),
         userInfoFile = Some (Parses (JsonValue (JString ''u1'') (JString ''Ann'')))\<rparr>,
      userInfo = None, browser = (), loginFlows = []\<rparr>"

text \<open>The same with a user info file that does not parse.\<close>

definition damaged_manager :: "(unit, unit) AuthManager" where
  "damaged_manager =
     \<lparr>sessionStorage =
        \<lparr>browserStateFile = Some (Parses ()), userInfoFile = Some Malformed\<rparr>,
      userInfo = None, browser = (), loginFlows = []\<rparr>"

text \<open>A manager that has the user "u1" cached in memory and whose user info file holds
  the empty object.\<close>

definition emptied_manager :: "(unit, unit) AuthManager" where
  "emptied_manager =
     \<lparr>sessionStorage =
        \<lparr>browserStateFile = Some (Parses ()),
         userInfoFile = Some (Parses (JsonValue JUndefined JUndefined))\<rparr>,
      userInfo = Some \<lparr>userId = JString ''u1'', userName = JString ''Ann''\<rparr>,
      browser = (), loginFlows = []\<rparr>"

section \<open>Example runtime\<close>

text \<open>
  A small stand-in for the runtime functions, used to run the storage code on explicit
  inputs. Its hex and base64 codecs map a byte to the character with the same code, its
  utf8 codec keeps the low byte of a code unit, which is enough for the ASCII texts it
  is run on; its cipher adds the sum of the key bytes to every byte, and its tag is that
  sum, fifteen times, followed by the checksum of the ciphertext under the key. It is
  not a secure cipher; it has the properties listed in \<open>platform_contract\<close>.
\<close>

definition byte_of_char :: "char \<Rightarrow> byte" where
  "byte_of_char c = word_of_nat (of_char c)"

definition char_of_byte :: "byte \<Rightarrow> char" where
  "char_of_byte b = char_of (unat b)"

text \<open>The JavaScript string of an ASCII text.\<close>

definition ascii :: "string \<Rightarrow> js_string" where
  "ascii s = map (\<lambda>c. word_of_nat (of_char c)) s"

definition demo_tag :: "byte list \<Rightarrow> byte list \<Rightarrow> byte list" where
  "demo_tag key ct = replicate 15 (sum_list key) @ [sum_list ct + sum_list key]"

definition demo_platform :: "StoredToken platform" where
  "demo_platform =
     \<lparr>pbkdf2Sync = (\<lambda>pw salt iterations keylen.
                      take keylen (map byte_of_char pw @ salt @ replicate keylen 0)),
      gcm_seal = (\<lambda>key iv m.
                    (map (\<lambda>b. b + sum_list key) m,
                     demo_tag key (map (\<lambda>b. b + sum_list key) m))),
      gcm_open = (\<lambda>key iv tag ct.
                    if tag = demo_tag key ct then Some (map (\<lambda>b. b - sum_list key) ct)
                    else None),
      utf8_bytes = map (\<lambda>u. word_of_nat (unat u)),
      utf8_string = map (\<lambda>b. word_of_nat (unat b)),
      hex_string = map char_of_byte,
      hex_bytes = map byte_of_char,
      base64_string = map char_of_byte,
      base64_bytes = map byte_of_char,
      JSON_stringify = (\<lambda>tok. ascii (token tok)),
      JSON_parse = (\<lambda>s. Some \<lparr>token = map (\<lambda>u. char_of (unat u)) s, tok_userId = [],
                                 tok_userName = [], expiresAt = 0, createdAt = 0,
                                 updatedAt = 0\<rparr>)\<rparr>"

definition demo_salt :: "byte list" where
  "demo_salt = replicate 64 7"

definition demo_iv :: "byte list" where
  "demo_iv = replicate 16 9"

text \<open>The ciphertext and tag of the text "abc" under the passphrase "pw", and the
  stored blob in which the middle byte of the ciphertext was replaced.\<close>

definition demo_ct :: "byte list" where
  "demo_ct = fst (gcm_seal demo_platform (deriveKey demo_platform ''pw'' demo_salt)
                    demo_iv (utf8_bytes demo_platform (ascii ''abc'')))"

definition demo_tag_abc :: "byte list" where
  "demo_tag_abc = snd (gcm_seal demo_platform (deriveKey demo_platform ''pw'' demo_salt)
                         demo_iv (utf8_bytes demo_platform (ascii ''abc'')))"

definition corrupted_storage :: TokenStorage where
  "corrupted_storage =
     \<lparr>password = ''pw'',
      tokenFile = Some (base64_string demo_platform
                          (demo_salt @ demo_iv @ demo_tag_abc @ demo_ct[1 := demo_ct ! 1 + 1]))\<rparr>"





section \<open>Health transitions of a handle\<close>

text \<open>
  C2. For every handle of the engine: from the fresh state (healthy, no failures) one and
  two recorded failures leave it healthy and the third makes it unhealthy; three recorded
  failures make any handle unhealthy; and one recorded success resets
  \<open>consecutiveFailures\<close> to 0 and makes the handle healthy, whatever its state was.
\<close>

theorem health_transition:
  assumes "adapters s t = Some state"
  shows "(healthy state \<and> consecutiveFailures state = 0 \<longrightarrow>
            map_option healthy (adapters (recordFailure t s) t) = Some True
          \<and> map_option healthy (adapters (recordFailure t (recordFailure t s)) t) = Some True
          \<and> map_option consecutiveFailures
               (adapters (recordFailure t (recordFailure t (recordFailure t s))) t) = Some 3)
       \<and> map_option healthy
            (adapters (recordFailure t (recordFailure t (recordFailure t s))) t) = Some False
       \<and> map_option healthy (adapters (recordSuccess t s) t) = Some True
       \<and> map_option consecutiveFailures (adapters (recordSuccess t s) t) = Some 0"
  using assms by (simp add: recordFailure_def recordSuccess_def Let_def)

theorem health_transition_witness:
  "adapters (new_StrategyEngine default_config ()) HTTP
     = Some \<lparr>adapter = HTTP, healthy = True, lastHealthCheck = 0, consecutiveFailures = 0\<rparr>
   \<and> map_option healthy
       (adapters (recordFailure HTTP (recordFailure HTTP
          (new_StrategyEngine default_config ()))) HTTP) = Some True
   \<and> map_option healthy
       (adapters (recordFailure HTTP (recordFailure HTTP (recordFailure HTTP
          (new_StrategyEngine default_config ())))) HTTP) = Some False
   \<and> map_option healthy
       (adapters (recordSuccess HTTP (recordFailure HTTP (recordFailure HTTP
          (recordFailure HTTP (new_StrategyEngine default_config ()))))) HTTP) = Some True"
proof -
  have h: "adapters (new_StrategyEngine default_config ()) HTTP
     = Some \<lparr>adapter = HTTP, healthy = True, lastHealthCheck = 0, consecutiveFailures = 0\<rparr>"
    by (simp add: new_StrategyEngine_def)
  have k: "adapters (recordFailure HTTP (recordFailure HTTP (recordFailure HTTP
          (new_StrategyEngine default_config ())))) HTTP
     = Some \<lparr>adapter = HTTP, healthy = False, lastHealthCheck = 0, consecutiveFailures = 3\<rparr>"
    by (simp add: new_StrategyEngine_def recordFailure_def Let_def)
  show ?thesis
    using health_transition [OF h] health_transition [OF k] h by simp
qed


section \<open>Lemmas on the engine\<close>

text \<open>The definitions unfolded to run the engine on explicit inputs.\<close>

lemmas engine_eval =
  execute_def maxAttemptsOf_def execute_loop.simps tryCurrent_def catchBlock_def
  tryFallback_def getCurrentAdapter_def recordFailureCurrent_def recordFailure_def
  recordSuccess_def selectBestAdapter_def checkAdapterHealth_def forceAdapter_def
  healthCheckTick_def initialize_def new_StrategyEngine_def default_config_def
  default_options_def static_env_def fresh_engine_def http_outage_engine_def Let_def

subsection \<open>The warnings are only appended to, once per failed attempt\<close>

lemma warnings_recordSuccess: "warnings (recordSuccess t s) = warnings s"
  by (simp add: recordSuccess_def split: option.splits)
lemma warnings_recordFailure: "warnings (recordFailure t s) = warnings s"
  by (simp add: recordFailure_def Let_def split: option.splits)
lemma warnings_recordFailureCurrent: "warnings (recordFailureCurrent s) = warnings s"
  by (simp add: recordFailureCurrent_def warnings_recordFailure split: option.splits)
lemma warnings_checkAdapterHealth: "checkAdapterHealth env t s = (r, s') \<Longrightarrow> warnings s' = warnings s"
  by (auto simp add: checkAdapterHealth_def Let_def split: option.splits prod.splits)
lemma warnings_recoverAdapter: "recoverAdapter env ts s = (r, s') \<Longrightarrow> warnings s' = warnings s"
proof (induction ts arbitrary: s)
  case Nil then show ?case by simp
next
  case (Cons t ts)
  obtain h s1 where c: "checkAdapterHealth env t s = (h, s1)"
    by (cases "checkAdapterHealth env t s")
  have "warnings s1 = warnings s" using warnings_checkAdapterHealth [OF c] .
  with Cons c show ?case by (auto split: if_splits)
qed
lemma warnings_selectBestAdapter: "warnings (selectBestAdapter env s) = warnings s"
proof (cases "recoverAdapter env (candidateTypes (mode (config s))) s")
  case (Pair r s1)
  then show ?thesis
    using warnings_recoverAdapter [OF Pair]
    by (auto simp: selectBestAdapter_def Let_def split: option.splits)
qed
lemma warnings_tryCurrent: "tryCurrent operation s = (r, s') \<Longrightarrow> warnings s' = warnings s"
  by (auto simp add: tryCurrent_def warnings_recordSuccess split: sum.splits prod.splits option.splits)
lemma warnings_tryFallback: "tryFallback fb operation s = (r, s') \<Longrightarrow> warnings s' = warnings s"
  by (auto simp add: tryFallback_def warnings_recordSuccess split: sum.splits prod.splits option.splits if_splits)
lemma warnings_catchBlock:
  "catchBlock env operation fb m a e s = (r, s') \<Longrightarrow> warnings s' = warnings s @ [(a, m, e)]"
proof -
  assume c: "catchBlock env operation fb m a e s = (r, s')"
  obtain f s4 where fbk: "tryFallback fb operation (recordFailureCurrent (s\<lparr>warnings := warnings s @ [(a, m, e)]\<rparr>)) = (f, s4)"
    by (cases "tryFallback fb operation (recordFailureCurrent (s\<lparr>warnings := warnings s @ [(a, m, e)]\<rparr>))")
  have "warnings s4 = warnings s @ [(a, m, e)]"
    using warnings_tryFallback [OF fbk] by (simp add: warnings_recordFailureCurrent)
  with c fbk show ?thesis
    by (cases f) (auto simp: catchBlock_def Let_def warnings_selectBestAdapter)
qed

lemma execute_loop_surfaces:
  "execute_loop env operation fb maxAttempts attempts s = (Inl e, s') \<Longrightarrow>
     (\<exists>ws. warnings s' = warnings s @ ws \<and> map fst ws = [attempts + 1..maxAttempts]
          \<and> (if ws = [] then e = Error ''Operation failed after retries''
              else snd (snd (last ws)) = e))"
proof (induction env operation fb maxAttempts attempts s rule: execute_loop.induct)
  case (1 env operation fb maxAttempts attempts s)
  show ?case
  proof (cases "attempts < maxAttempts")
    case False
    with "1.prems" show ?thesis by (simp add: execute_loop.simps)
  next
    case True
    obtain r s1 where t: "tryCurrent operation s = (r, s1)" by (cases "tryCurrent operation s")
    have w1: "warnings s1 = warnings s" using warnings_tryCurrent [OF t] .
    show ?thesis
    proof (cases r)
      case (Inr x)
      with "1.prems" True t show ?thesis by (simp add: execute_loop.simps)
    next
      case (Inl err)
      obtain f s5 where cb: "catchBlock env operation fb maxAttempts (attempts + 1) err s1 = (f, s5)"
        by (cases "catchBlock env operation fb maxAttempts (attempts + 1) err s1")
      have w5: "warnings s5 = warnings s @ [(attempts + 1, maxAttempts, err)]"
        using warnings_catchBlock [OF cb] w1 by simp
      show ?thesis
      proof (cases f)
        case (Some x)
        with "1.prems" True t Inl cb show ?thesis
          by (simp add: execute_loop.simps [of env operation fb maxAttempts attempts s])
      next
        case None
        show ?thesis
        proof (cases "attempts + 1 \<ge> maxAttempts")
          case True
          with "1.prems" \<open>attempts < maxAttempts\<close> t Inl cb None 
          have "e = err" "s' = s5"
            by (simp_all add: execute_loop.simps [of env operation fb maxAttempts attempts s])
          moreover have "maxAttempts = attempts + 1" using True \<open>attempts < maxAttempts\<close> by simp
          ultimately show ?thesis using w5 by (intro exI [of _ "[(attempts + 1, maxAttempts, err)]"]) simp
        next
          case False
          with "1.prems" \<open>attempts < maxAttempts\<close> t Inl cb None 
          have rec: "execute_loop env operation fb maxAttempts (attempts + 1) s5 = (Inl e, s')"
            by (simp add: execute_loop.simps [of env operation fb maxAttempts attempts s])
          from "1.IH" [OF \<open>attempts < maxAttempts\<close> t [symmetric] Inl cb [symmetric] None False rec]
          obtain ws where ws: "warnings s' = warnings s5 @ ws" "map fst ws = [attempts + 1 + 1..maxAttempts]"
             "if ws = [] then e = Error ''Operation failed after retries'' else snd (snd (last ws)) = e"
            by blast
          have ne: "ws \<noteq> []" using ws(2) False by (auto simp: upto.simps)
          have up: "[attempts + 1..maxAttempts] = (attempts + 1) # [attempts + 1 + 1..maxAttempts]"
            using False by (simp add: upto.simps)
          show ?thesis
            using ws ne w5 up
            by (intro exI [of _ "(attempts + 1, maxAttempts, err) # ws"]) simp
        qed
      qed
    qed
  qed
qed

lemma tryCurrent_all_fail:
  assumes "\<forall>a w. isl (fst (operation a w))"
  shows "\<exists>e s1. tryCurrent operation s = (Inl e, s1)"
proof (cases "getCurrentAdapter s")
  case (Inl e) then show ?thesis by (simp add: tryCurrent_def)
next
  case (Inr a)
  obtain r w' where o: "operation a (world s) = (r, w')" by (cases "operation a (world s)")
  with assms have "isl r" by (metis fst_conv)
  then obtain e where "r = Inl e" by (cases r) auto
  with Inr o show ?thesis by (simp add: tryCurrent_def)
qed

lemma operation_all_fail:
  assumes "\<forall>a w. isl (fst (operation a w))"
  shows "\<exists>e w'. operation a w = (Inl e, w')"
proof -
  obtain r w' where o: "operation a w = (r, w')" by (cases "operation a w")
  with assms have "isl r" by (metis fst_conv)
  then obtain e where "r = Inl e" by (cases r) auto
  with o show ?thesis by blast
qed

lemma tryFallback_all_fail:
  assumes "\<forall>a w. isl (fst (operation a w))"
  shows "\<exists>s1. tryFallback fb operation s = (None, s1)"
proof (cases "fb \<and> currentAdapter s = Some HTTP")
  case False
  then show ?thesis by (auto simp: tryFallback_def)
next
  case True
  show ?thesis
  proof (cases "adapters s PLAYWRIGHT")
    case None
    with True show ?thesis by (simp add: tryFallback_def)
  next
    case (Some ps)
    obtain e w' where "operation (adapter ps) (world s) = (Inl e, w')"
      using operation_all_fail [OF assms] by blast
    with True Some show ?thesis by (simp add: tryFallback_def)
  qed
qed

lemma catchBlock_all_fail:
  assumes "\<forall>a w. isl (fst (operation a w))"
  shows "\<exists>s1. catchBlock env operation fb m a e s = (None, s1)"
proof -
  obtain s4 where "tryFallback fb operation (recordFailureCurrent (s\<lparr>warnings := warnings s @ [(a, m, e)]\<rparr>)) = (None, s4)"
    using tryFallback_all_fail [OF assms] by blast
  then show ?thesis by (simp add: catchBlock_def Let_def)
qed

lemma three_failed_attempts:
  assumes af: "\<forall>a w. isl (fst (operation a w))"
  shows "\<exists>e1 a1 b1 e2 a2 b2 e3 a3 b3.
           tryCurrent operation s = (Inl e1, a1)
         \<and> catchBlock env operation fb 3 1 e1 a1 = (None, b1)
         \<and> tryCurrent operation b1 = (Inl e2, a2)
         \<and> catchBlock env operation fb 3 2 e2 a2 = (None, b2)
         \<and> tryCurrent operation b2 = (Inl e3, a3)
         \<and> catchBlock env operation fb 3 3 e3 a3 = (None, b3)
         \<and> execute_loop env operation fb 3 0 s = (Inl e3, b3)
         \<and> warnings b3 = warnings s @ [(1, 3, e1), (2, 3, e2), (3, 3, e3)]"
proof -
  obtain e1 a1 where t1: "tryCurrent operation s = (Inl e1, a1)"
    using tryCurrent_all_fail [OF af] by blast
  obtain b1 where c1: "catchBlock env operation fb 3 1 e1 a1 = (None, b1)"
    using catchBlock_all_fail [OF af] by blast
  obtain e2 a2 where t2: "tryCurrent operation b1 = (Inl e2, a2)"
    using tryCurrent_all_fail [OF af] by blast
  obtain b2 where c2: "catchBlock env operation fb 3 2 e2 a2 = (None, b2)"
    using catchBlock_all_fail [OF af] by blast
  obtain e3 a3 where t3: "tryCurrent operation b2 = (Inl e3, a3)"
    using tryCurrent_all_fail [OF af] by blast
  obtain b3 where c3: "catchBlock env operation fb 3 3 e3 a3 = (None, b3)"
    using catchBlock_all_fail [OF af] by blast
  have l3: "execute_loop env operation fb 3 2 b2 = (Inl e3, b3)"
    using t3 c3 by (simp add: execute_loop.simps [of env operation fb 3 2 b2])
  have l2: "execute_loop env operation fb 3 1 b1 = (Inl e3, b3)"
    using t2 c2 l3 by (simp add: execute_loop.simps [of env operation fb 3 1 b1])
  have l1: "execute_loop env operation fb 3 0 s = (Inl e3, b3)"
    using t1 c1 l2 by (simp add: execute_loop.simps [of env operation fb 3 0 s])
  have "warnings b3 = warnings s @ [(1, 3, e1), (2, 3, e2), (3, 3, e3)]"
    using warnings_tryCurrent [OF t1] warnings_catchBlock [OF c1]
          warnings_tryCurrent [OF t2] warnings_catchBlock [OF c2]
          warnings_tryCurrent [OF t3] warnings_catchBlock [OF c3] by simp
  with t1 c1 t2 c2 t3 c3 l1 show ?thesis by blast
qed

subsection \<open>The trace of operation calls only grows\<close>

lemma opTrace_recordSuccess: "opTrace (recordSuccess t s) = opTrace s"
  by (simp add: recordSuccess_def split: option.splits)
lemma opTrace_recordFailure: "opTrace (recordFailure t s) = opTrace s"
  by (simp add: recordFailure_def Let_def split: option.splits)
lemma opTrace_recordFailureCurrent: "opTrace (recordFailureCurrent s) = opTrace s"
  by (simp add: recordFailureCurrent_def opTrace_recordFailure split: option.splits)
lemma opTrace_checkAdapterHealth: "checkAdapterHealth env t s = (r, s') \<Longrightarrow> opTrace s' = opTrace s"
  by (auto simp add: checkAdapterHealth_def Let_def split: option.splits prod.splits)
lemma opTrace_recoverAdapter: "recoverAdapter env ts s = (r, s') \<Longrightarrow> opTrace s' = opTrace s"
proof (induction ts arbitrary: s)
  case Nil then show ?case by simp
next
  case (Cons t ts)
  obtain h s1 where c: "checkAdapterHealth env t s = (h, s1)"
    by (cases "checkAdapterHealth env t s")
  have "opTrace s1 = opTrace s" using opTrace_checkAdapterHealth [OF c] .
  with Cons c show ?case by (auto split: if_splits)
qed
lemma opTrace_selectBestAdapter: "opTrace (selectBestAdapter env s) = opTrace s"
proof (cases "recoverAdapter env (candidateTypes (mode (config s))) s")
  case (Pair r s1)
  then show ?thesis
    using opTrace_recoverAdapter [OF Pair]
    by (auto simp: selectBestAdapter_def Let_def split: option.splits)
qed
lemma opTrace_tryCurrent: "tryCurrent operation s = (r, s') \<Longrightarrow> \<exists>rest. opTrace s' = opTrace s @ rest"
  by (auto simp add: tryCurrent_def opTrace_recordSuccess split: sum.splits prod.splits option.splits)
lemma opTrace_tryFallback: "tryFallback fb operation s = (r, s') \<Longrightarrow> \<exists>rest. opTrace s' = opTrace s @ rest"
  by (auto simp add: tryFallback_def opTrace_recordSuccess split: sum.splits prod.splits option.splits if_splits)
lemma opTrace_catchBlock:
  "catchBlock env operation fb m a e s = (r, s') \<Longrightarrow> \<exists>rest. opTrace s' = opTrace s @ rest"
proof -
  assume c: "catchBlock env operation fb m a e s = (r, s')"
  obtain f s4 where fbk: "tryFallback fb operation (recordFailureCurrent (s\<lparr>warnings := warnings s @ [(a, m, e)]\<rparr>)) = (f, s4)"
    by (cases "tryFallback fb operation (recordFailureCurrent (s\<lparr>warnings := warnings s @ [(a, m, e)]\<rparr>))")
  have "\<exists>rest. opTrace s4 = opTrace s @ rest"
    using opTrace_tryFallback [OF fbk] by (simp add: opTrace_recordFailureCurrent)
  with c fbk show ?thesis
    by (cases f) (auto simp: catchBlock_def Let_def opTrace_selectBestAdapter)
qed

lemma opTrace_execute_loop:
  "\<exists>rest. opTrace (snd (execute_loop env operation fb maxAttempts attempts s)) = opTrace s @ rest"
proof (induction env operation fb maxAttempts attempts s rule: execute_loop.induct)
  case (1 env operation fb maxAttempts attempts s)
  show ?case
  proof (cases "attempts < maxAttempts")
    case False
    then show ?thesis by (simp add: execute_loop.simps)
  next
    case True
    obtain r s1 where t: "tryCurrent operation s = (r, s1)" by (cases "tryCurrent operation s")
    obtain r1 where o1: "opTrace s1 = opTrace s @ r1" using opTrace_tryCurrent [OF t] by blast
    show ?thesis
    proof (cases r)
      case (Inr x)
      with True t o1 show ?thesis by (simp add: execute_loop.simps)
    next
      case (Inl err)
      obtain f s5 where cb: "catchBlock env operation fb maxAttempts (attempts + 1) err s1 = (f, s5)"
        by (cases "catchBlock env operation fb maxAttempts (attempts + 1) err s1")
      obtain r5 where o5: "opTrace s5 = opTrace s1 @ r5" using opTrace_catchBlock [OF cb] by blast
      show ?thesis
      proof (cases f)
        case (Some x)
        with True t Inl cb o1 o5 show ?thesis
          by (simp add: execute_loop.simps [of env operation fb maxAttempts attempts s])
      next
        case None
        show ?thesis
        proof (cases "attempts + 1 \<ge> maxAttempts")
          case True
          with \<open>attempts < maxAttempts\<close> t Inl cb None o1 o5 show ?thesis
            by (simp add: execute_loop.simps [of env operation fb maxAttempts attempts s])
        next
          case False
          from "1.IH" [OF \<open>attempts < maxAttempts\<close> t [symmetric] Inl cb [symmetric] None False]
          obtain rest where "opTrace (snd (execute_loop env operation fb maxAttempts (attempts + 1) s5)) = opTrace s5 @ rest"
            by blast
          with False \<open>attempts < maxAttempts\<close> t Inl cb None o1 o5 show ?thesis
            by (simp add: execute_loop.simps [of env operation fb maxAttempts attempts s])
        qed
      qed
    qed
  qed
qed

text \<open>The first call of an execution goes to the adapter of the current handle.\<close>

lemma execute_loop_first_call:
  assumes "attempts < maxAttempts" "currentAdapter s = Some t" "adapters s t = Some state"
  shows "\<exists>rest. opTrace (snd (execute_loop env operation fb maxAttempts attempts s))
           = opTrace s @ adapter state # rest"
proof -
  obtain r w' where o: "operation (adapter state) (world s) = (r, w')"
    by (cases "operation (adapter state) (world s)")
  show ?thesis
  proof (cases r)
    case (Inr x)
    with assms o show ?thesis
      by (simp add: execute_loop.simps [of env operation fb maxAttempts attempts s]
            tryCurrent_def getCurrentAdapter_def opTrace_recordSuccess)
  next
    case (Inl err)
    define s1 where "s1 = s\<lparr>world := w', opTrace := opTrace s @ [adapter state]\<rparr>"
    have t: "tryCurrent operation s = (Inl err, s1)"
      using assms o Inl by (simp add: tryCurrent_def getCurrentAdapter_def s1_def)
    obtain f s5 where cb: "catchBlock env operation fb maxAttempts (attempts + 1) err s1 = (f, s5)"
      by (cases "catchBlock env operation fb maxAttempts (attempts + 1) err s1")
    obtain r5 where o5: "opTrace s5 = opTrace s1 @ r5" using opTrace_catchBlock [OF cb] by blast
    obtain r6 where o6: "opTrace (snd (execute_loop env operation fb maxAttempts (attempts + 1) s5)) = opTrace s5 @ r6"
      using opTrace_execute_loop by blast
    show ?thesis
      using assms(1) t cb o5 o6
      by (cases f) (auto simp add: execute_loop.simps [of env operation fb maxAttempts attempts s] s1_def)
  qed
qed

lemma selectBestAdapter_auto:
  assumes "mode (config s) = Mode_AUTO" "adapters s HTTP = Some hs" "\<not> healthy hs"
          "adapters s PLAYWRIGHT = Some ps" "healthy ps"
  shows "selectBestAdapter env s = s\<lparr>currentAdapter := Some PLAYWRIGHT\<rparr>"
  using assms by (simp add: selectBestAdapter_def)

lemma http_fails_fallback:
  assumes m: "attempts < maxAttempts" and c: "currentAdapter s = Some HTTP"
      and h: "adapters s HTTP = Some hs" "adapter hs = HTTP"
      and p: "adapters s PLAYWRIGHT = Some ps" "healthy ps" "adapter ps = PLAYWRIGHT"
      and o: "operation HTTP (world s) = (Inl e, w1)"
  shows "(\<exists>rest. opTrace (snd (execute_loop env operation True maxAttempts attempts s))
             = opTrace s @ HTTP # PLAYWRIGHT # rest)
       \<and> (\<forall>r w2. operation PLAYWRIGHT w1 = (Inr r, w2) \<longrightarrow>
             fst (execute_loop env operation True maxAttempts attempts s) = Inr r
           \<and> opTrace (snd (execute_loop env operation True maxAttempts attempts s))
               = opTrace s @ [HTTP, PLAYWRIGHT])"
proof -
  define s1 where "s1 = s\<lparr>world := w1, opTrace := opTrace s @ [HTTP]\<rparr>"
  have t: "tryCurrent operation s = (Inl e, s1)"
    using c h o by (simp add: tryCurrent_def getCurrentAdapter_def s1_def)
  define s3 where "s3 = recordFailureCurrent (s1\<lparr>warnings := warnings s1 @ [(attempts + 1, maxAttempts, e)]\<rparr>)"
  have s3: "currentAdapter s3 = Some HTTP" "adapters s3 PLAYWRIGHT = Some ps" "world s3 = w1"
           "opTrace s3 = opTrace s @ [HTTP]"
    using c h p by (simp_all add: s3_def s1_def recordFailureCurrent_def recordFailure_def Let_def)
  obtain r w2 where o2: "operation PLAYWRIGHT w1 = (r, w2)" by (cases "operation PLAYWRIGHT w1")
  show ?thesis
  proof (cases r)
    case (Inr x)
    have fbk: "tryFallback True operation s3
                 = (Some x, recordSuccess PLAYWRIGHT (s3\<lparr>world := w2, opTrace := opTrace s3 @ [PLAYWRIGHT]\<rparr>))"
      using s3 p o2 Inr by (simp add: tryFallback_def)
    have cb: "catchBlock env operation True maxAttempts (attempts + 1) e s1
                 = (Some x, recordSuccess PLAYWRIGHT (s3\<lparr>world := w2, opTrace := opTrace s3 @ [PLAYWRIGHT]\<rparr>))"
      using fbk by (simp add: catchBlock_def Let_def s3_def)
    have "execute_loop env operation True maxAttempts attempts s
            = (Inr x, recordSuccess PLAYWRIGHT (s3\<lparr>world := w2, opTrace := opTrace s3 @ [PLAYWRIGHT]\<rparr>))"
      using m t cb by (simp add: execute_loop.simps [of env operation True maxAttempts attempts s])
    then show ?thesis using s3 o2 Inr by (simp add: opTrace_recordSuccess)
  next
    case (Inl e2)
    define s4 where "s4 = s3\<lparr>world := w2, opTrace := opTrace s3 @ [PLAYWRIGHT]\<rparr>"
    have fbk: "tryFallback True operation s3 = (None, s4)"
      using s3 p o2 Inl by (simp add: tryFallback_def s4_def)
    have cb: "catchBlock env operation True maxAttempts (attempts + 1) e s1
                 = (None, selectBestAdapter env s4)"
      using fbk by (simp add: catchBlock_def Let_def s3_def)
    have o5: "opTrace (selectBestAdapter env s4) = opTrace s @ [HTTP, PLAYWRIGHT]"
      using s3 by (simp add: opTrace_selectBestAdapter s4_def)
    obtain r6 where o6: "opTrace (snd (execute_loop env operation True maxAttempts (attempts + 1) (selectBestAdapter env s4)))
         = opTrace (selectBestAdapter env s4) @ r6"
      using opTrace_execute_loop by blast
    have "\<exists>rest. opTrace (snd (execute_loop env operation True maxAttempts attempts s))
             = opTrace s @ HTTP # PLAYWRIGHT # rest"
      using m t cb o5 o6
      by (simp add: execute_loop.simps [of env operation True maxAttempts attempts s])
    then show ?thesis using o2 Inl by simp
  qed
qed

section \<open>Retry exhaustion\<close>

text \<open>
  C3, as the code has it. With \<open>retryAttempts = 3\<close>, retries enabled and an operation that
  rejects on every adapter, \<open>execute\<close> makes three attempts and throws: each attempt runs
  the \<^verbatim>\<open>try\<close> block, which rejects with \<open>e1\<close>, \<open>e2\<close>, \<open>e3\<close> in turn, and the \<^verbatim>\<open>catch\<close>
  block, whose fallback returns nothing; the warnings logged are exactly the three
  attempts; and the error thrown is \<open>e3\<close>, the one the \<^verbatim>\<open>try\<close> block of the third attempt
  caught (an error of the fallback call is dropped). Moreover, for every configuration,
  options and operation, \<open>execute\<close> throws only after \<open>maxAttempts\<close> failed attempts have
  been logged, numbered \<open>1\<close> to \<open>maxAttempts\<close>, and it throws the error of the last one
  (with no attempt at all, the error "Operation failed after retries").
\<close>

theorem retry_exhaustion:
  "(retryAttempts (config s) = 3 \<and> retryOnFailure options
      \<and> (\<forall>a w. isl (fst (operation a w))) \<longrightarrow>
      (\<exists>e1 a1 b1 e2 a2 b2 e3 a3 b3.
           tryCurrent operation s = (Inl e1, a1)
         \<and> catchBlock env operation (fallbackToPlaywright options) 3 1 e1 a1 = (None, b1)
         \<and> tryCurrent operation b1 = (Inl e2, a2)
         \<and> catchBlock env operation (fallbackToPlaywright options) 3 2 e2 a2 = (None, b2)
         \<and> tryCurrent operation b2 = (Inl e3, a3)
         \<and> catchBlock env operation (fallbackToPlaywright options) 3 3 e3 a3 = (None, b3)
         \<and> execute env operation options s = (Inl e3, b3)
         \<and> warnings b3 = warnings s @ [(1, 3, e1), (2, 3, e2), (3, 3, e3)]))
   \<and> (\<forall>e s'. execute env operation options s = (Inl e, s') \<longrightarrow>
        (\<exists>ws. warnings s' = warnings s @ ws
            \<and> map fst ws = [1..maxAttemptsOf options s]
            \<and> (if ws = [] then e = Error ''Operation failed after retries''
                else snd (snd (last ws)) = e)))"
proof (intro conjI impI allI)
  assume h: "retryAttempts (config s) = 3 \<and> retryOnFailure options
               \<and> (\<forall>a w. isl (fst (operation a w)))"
  then have m: "maxAttemptsOf options s = 3" by (simp add: maxAttemptsOf_def)
  from h have "\<forall>a w. isl (fst (operation a w))" by simp
  from three_failed_attempts [OF this, of s env "fallbackToPlaywright options"]
  show "\<exists>e1 a1 b1 e2 a2 b2 e3 a3 b3.
           tryCurrent operation s = (Inl e1, a1)
         \<and> catchBlock env operation (fallbackToPlaywright options) 3 1 e1 a1 = (None, b1)
         \<and> tryCurrent operation b1 = (Inl e2, a2)
         \<and> catchBlock env operation (fallbackToPlaywright options) 3 2 e2 a2 = (None, b2)
         \<and> tryCurrent operation b2 = (Inl e3, a3)
         \<and> catchBlock env operation (fallbackToPlaywright options) 3 3 e3 a3 = (None, b3)
         \<and> execute env operation options s = (Inl e3, b3)
         \<and> warnings b3 = warnings s @ [(1, 3, e1), (2, 3, e2), (3, 3, e3)]"
    by (simp add: execute_def m)
next
  fix e s'
  assume "execute env operation options s = (Inl e, s')"
  then have "execute_loop env operation (fallbackToPlaywright options)
               (maxAttemptsOf options s) 0 s = (Inl e, s')"
    by (simp add: execute_def)
  from execute_loop_surfaces [OF this]
  show "\<exists>ws. warnings s' = warnings s @ ws
            \<and> map fst ws = [1..maxAttemptsOf options s]
            \<and> (if ws = [] then e = Error ''Operation failed after retries''
                else snd (snd (last ws)) = e)"
    by simp
qed

lemma failing_op_rejects: "\<forall>a w. isl (fst (failing_op a w))"
  by (simp add: failing_op_def)

lemma fresh_engine_fields:
  "retryAttempts (config fresh_engine) = 3" "warnings fresh_engine = []"
  "currentAdapter fresh_engine = Some HTTP" "opTrace fresh_engine = []"
  "probeTrace fresh_engine = []" "world fresh_engine = 0"
  by (simp_all add: engine_eval)

theorem retry_exhaustion_witness:
  "retryAttempts (config fresh_engine) = 3 \<and> retryOnFailure default_options
   \<and> (\<forall>a w. isl (fst (failing_op a w)))
   \<and> (\<exists>e1 e2 e3 s'.
         execute (static_env (\<lambda>t. True)) failing_op default_options fresh_engine = (Inl e3, s')
       \<and> warnings s' = [(1, 3, e1), (2, 3, e2), (3, 3, e3)])"
proof -
  have h: "retryAttempts (config fresh_engine) = 3 \<and> retryOnFailure default_options
             \<and> (\<forall>a w. isl (fst (failing_op a w)))"
    using failing_op_rejects by (simp add: fresh_engine_fields default_options_def)
  from retry_exhaustion [where s = fresh_engine and options = default_options
                           and operation = failing_op and env = "static_env (\<lambda>t. True)"] h
  obtain e1 e2 e3 b3 where
    "execute (static_env (\<lambda>t. True)) failing_op default_options fresh_engine = (Inl e3, b3)"
    "warnings b3 = warnings fresh_engine @ [(1, 3, e1), (2, 3, e2), (3, 3, e3)]"
    by blast
  then show ?thesis using h by (auto simp: fresh_engine_fields)
qed

text \<open>
  C3 as stated fails on the default configuration. Both adapters reject every call, the
  engine makes six calls, HTTP and Playwright in turn; the last adapter called is
  Playwright, whose call (the sixth, made in world 5) rejects with "playwright#IIIII",
  and \<open>execute\<close> throws "http#IIII", the error of the fifth call.
\<close>

theorem retry_exhaustion_counterexample:
  "(\<forall>a w. isl (fst (failing_op a w)))
   \<and> retryAttempts (config fresh_engine) = 3
   \<and> fst (execute (static_env (\<lambda>t. True)) failing_op default_options fresh_engine)
       = Inl (Error ''http#IIII'')
   \<and> opTrace (snd (execute (static_env (\<lambda>t. True)) failing_op default_options fresh_engine))
       = [HTTP, PLAYWRIGHT, HTTP, PLAYWRIGHT, HTTP, PLAYWRIGHT]
   \<and> world (snd (execute (static_env (\<lambda>t. True)) failing_op default_options fresh_engine)) = 6
   \<and> fst (failing_op PLAYWRIGHT 5) = Inl (Error ''playwright#IIIII'')
   \<and> fst (execute (static_env (\<lambda>t. True)) failing_op default_options fresh_engine)
       \<noteq> fst (failing_op PLAYWRIGHT 5)"
proof -
  have r: "fst (execute (static_env (\<lambda>t. True)) failing_op default_options fresh_engine)
       = Inl (Error ''http#IIII'')"
    by (simp add: engine_eval failing_op_def)
  have t: "opTrace (snd (execute (static_env (\<lambda>t. True)) failing_op default_options fresh_engine))
       = [HTTP, PLAYWRIGHT, HTTP, PLAYWRIGHT, HTTP, PLAYWRIGHT]"
    by (simp add: engine_eval failing_op_def)
  have w: "world (snd (execute (static_env (\<lambda>t. True)) failing_op default_options fresh_engine)) = 6"
    by (simp add: engine_eval failing_op_def)
  have p: "fst (failing_op PLAYWRIGHT 5) = Inl (Error ''playwright#IIIII'')"
    by (simp add: failing_op_def eval_nat_numeral)
  show ?thesis
    using r t w p failing_op_rejects by (simp add: fresh_engine_fields)
qed

section \<open>A failure returned as a value\<close>

text \<open>What the \<^verbatim>\<open>try\<close> block throws: the error of \<^verbatim>\<open>getCurrentAdapter\<close> or the rejection of
  the operation called on the current adapter.\<close>

lemma getCurrentAdapter_throws:
  "getCurrentAdapter s = Inl e \<Longrightarrow>
     e = Error ''No adapter selected''
   \<or> (\<exists>t. e = Error (''Adapter not found: '' @ AdapterType_str t))"
  by (auto simp: getCurrentAdapter_def split: option.splits)

lemma tryCurrent_throws:
  "tryCurrent operation s = (Inl e, s1) \<Longrightarrow>
     getCurrentAdapter s = Inl e
   \<or> (\<exists>a w'. getCurrentAdapter s = Inr a \<and> operation a (world s) = (Inl e, w'))"
  by (auto simp: tryCurrent_def split: sum.splits prod.splits option.splits)

lemma execute_loop_failed_attempts:
  "execute_loop env operation fb maxAttempts attempts s = (r, s') \<Longrightarrow>
     \<exists>ws. warnings s' = warnings s @ ws
        \<and> (\<forall>x \<in> set ws.
              (\<exists>a w w'. operation a w = (Inl (snd (snd x)), w'))
            \<or> snd (snd x) = Error ''No adapter selected''
            \<or> (\<exists>t. snd (snd x) = Error (''Adapter not found: '' @ AdapterType_str t)))"
proof (induction env operation fb maxAttempts attempts s arbitrary: r s'
         rule: execute_loop.induct)
  case (1 env operation fb maxAttempts attempts s)
  show ?case
  proof (cases "attempts < maxAttempts")
    case False
    with "1.prems" show ?thesis by (simp add: execute_loop.simps)
  next
    case True
    obtain q s1 where t: "tryCurrent operation s = (q, s1)" by (cases "tryCurrent operation s")
    have w1: "warnings s1 = warnings s" using warnings_tryCurrent [OF t] .
    show ?thesis
    proof (cases q)
      case (Inr x)
      with "1.prems" True t w1 show ?thesis
        by (simp add: execute_loop.simps [of env operation fb maxAttempts attempts s])
    next
      case (Inl err)
      have thrown: "(\<exists>a w w'. operation a w = (Inl err, w'))
            \<or> err = Error ''No adapter selected''
            \<or> (\<exists>t. err = Error (''Adapter not found: '' @ AdapterType_str t))"
        using tryCurrent_throws [of operation s err s1] getCurrentAdapter_throws [of s err]
              t Inl by blast
      obtain f s5 where
        cb: "catchBlock env operation fb maxAttempts (attempts + 1) err s1 = (f, s5)"
        by (cases "catchBlock env operation fb maxAttempts (attempts + 1) err s1")
      have w5: "warnings s5 = warnings s @ [(attempts + 1, maxAttempts, err)]"
        using warnings_catchBlock [OF cb] w1 by simp
      show ?thesis
      proof (cases "f = None \<and> \<not> attempts + 1 \<ge> maxAttempts")
        case False
        with "1.prems" True t Inl cb have "s' = s5"
          by (cases f)
            (auto simp: execute_loop.simps [of env operation fb maxAttempts attempts s])
        then show ?thesis
          using w5 thrown by (intro exI [of _ "[(attempts + 1, maxAttempts, err)]"]) simp
      next
        case rec: True
        with "1.prems" True t Inl cb
        have e: "execute_loop env operation fb maxAttempts (attempts + 1) s5 = (r, s')"
          by (simp add: execute_loop.simps [of env operation fb maxAttempts attempts s])
        from rec have n: "f = None" and l: "\<not> attempts + 1 \<ge> maxAttempts" by simp_all
        from "1.IH" [OF True t [symmetric] Inl cb [symmetric] n l e]
        obtain ws where ws: "warnings s' = warnings s5 @ ws"
          "\<forall>x \<in> set ws.
              (\<exists>a w w'. operation a w = (Inl (snd (snd x)), w'))
            \<or> snd (snd x) = Error ''No adapter selected''
            \<or> (\<exists>t. snd (snd x) = Error (''Adapter not found: '' @ AdapterType_str t))"
          by blast
        show ?thesis
          using ws w5 thrown
          by (intro exI [of _ "(attempts + 1, maxAttempts, err) # ws"]) simp
      qed
    qed
  qed
qed

text \<open>An operation that resolves on the current adapter ends the loop.\<close>

lemma execute_loop_resolves:
  assumes "attempts < maxAttempts" and "currentAdapter s = Some t"
      and "adapters s t = Some state"
      and "operation (adapter state) (world s) = (Inr r, w')"
  shows "execute_loop env operation fb maxAttempts attempts s
           = (Inr r, recordSuccess t (s\<lparr>world := w', opTrace := opTrace s @ [adapter state]\<rparr>))"
proof -
  have "tryCurrent operation s
          = (Inr r, recordSuccess t (s\<lparr>world := w', opTrace := opTrace s @ [adapter state]\<rparr>))"
    using assms(2-4) by (simp add: tryCurrent_def getCurrentAdapter_def)
  then show ?thesis
    using assms(1)
    by (simp add: execute_loop.simps [of env operation fb maxAttempts attempts s])
qed

text \<open>A run on the current HTTP adapter that rejects, followed by a fallback call that
  resolves.\<close>

lemma execute_loop_fallback_resolves:
  assumes m: "attempts < maxAttempts" and c: "currentAdapter s = Some HTTP"
      and h: "adapters s HTTP = Some hs"
      and p: "adapters s PLAYWRIGHT = Some ps" "healthy ps"
      and o: "operation (adapter hs) (world s) = (Inl e, wa)"
      and q: "operation (adapter ps) wa = (Inr r, wb)"
  shows "\<exists>s'. execute_loop env operation True maxAttempts attempts s = (Inr r, s')
            \<and> warnings s' = warnings s @ [(attempts + 1, maxAttempts, e)]
            \<and> opTrace s' = opTrace s @ [adapter hs, adapter ps]
            \<and> adapters s' PLAYWRIGHT = Some (ps\<lparr>consecutiveFailures := 0, healthy := True\<rparr>)
            \<and> map_option consecutiveFailures (adapters s' HTTP)
                = Some (consecutiveFailures hs + 1)"
proof -
  define s1 where "s1 = s\<lparr>world := wa, opTrace := opTrace s @ [adapter hs]\<rparr>"
  have t: "tryCurrent operation s = (Inl e, s1)"
    using c h o by (simp add: tryCurrent_def getCurrentAdapter_def s1_def)
  define s3 where
    "s3 = recordFailureCurrent (s1\<lparr>warnings := warnings s1 @ [(attempts + 1, maxAttempts, e)]\<rparr>)"
  have s3: "currentAdapter s3 = Some HTTP" "adapters s3 PLAYWRIGHT = Some ps" "world s3 = wa"
           "opTrace s3 = opTrace s @ [adapter hs]"
           "warnings s3 = warnings s @ [(attempts + 1, maxAttempts, e)]"
           "map_option consecutiveFailures (adapters s3 HTTP)
              = Some (consecutiveFailures hs + 1)"
    using c h p
    by (simp_all add: s3_def s1_def recordFailureCurrent_def recordFailure_def Let_def)
  define s4 where
    "s4 = recordSuccess PLAYWRIGHT (s3\<lparr>world := wb, opTrace := opTrace s3 @ [adapter ps]\<rparr>)"
  have fbk: "tryFallback True operation s3 = (Some r, s4)"
    using s3 p q by (simp add: tryFallback_def s4_def)
  have cb: "catchBlock env operation True maxAttempts (attempts + 1) e s1 = (Some r, s4)"
    using fbk by (simp add: catchBlock_def Let_def s3_def)
  have "execute_loop env operation True maxAttempts attempts s = (Inr r, s4)"
    using m t cb by (simp add: execute_loop.simps [of env operation True maxAttempts attempts s])
  moreover have "warnings s4 = warnings s @ [(attempts + 1, maxAttempts, e)]"
    using s3 by (simp add: s4_def warnings_recordSuccess)
  moreover have "opTrace s4 = opTrace s @ [adapter hs, adapter ps]"
    using s3 by (simp add: s4_def opTrace_recordSuccess)
  moreover have "adapters s4 PLAYWRIGHT
                   = Some (ps\<lparr>consecutiveFailures := 0, healthy := True\<rparr>)"
    using s3 by (simp add: s4_def recordSuccess_def)
  moreover have "map_option consecutiveFailures (adapters s4 HTTP)
                   = Some (consecutiveFailures hs + 1)"
    using s3 by (simp add: s4_def recordSuccess_def)
  ultimately show ?thesis by blast
qed

text \<open>The first attempt on an engine with no current adapter: \<^verbatim>\<open>getCurrentAdapter\<close>
  throws, the attempt is logged as failed, no fallback is tried, and the adapter is
  selected.\<close>

lemma execute_loop_no_current:
  assumes m: "attempts < maxAttempts" and c: "currentAdapter s = None"
  shows "execute_loop env operation fb maxAttempts attempts s
           = (if attempts + 1 \<ge> maxAttempts
              then (Inl (Error ''No adapter selected''),
                    selectBestAdapter env
                      (s\<lparr>warnings := warnings s
                            @ [(attempts + 1, maxAttempts, Error ''No adapter selected'')]\<rparr>))
              else execute_loop env operation fb maxAttempts (attempts + 1)
                    (selectBestAdapter env
                      (s\<lparr>warnings := warnings s
                            @ [(attempts + 1, maxAttempts, Error ''No adapter selected'')]\<rparr>)))"
proof -
  let ?err = "Error ''No adapter selected''"
  let ?s2 = "s\<lparr>warnings := warnings s @ [(attempts + 1, maxAttempts, ?err)]\<rparr>"
  have t: "tryCurrent operation s = (Inl ?err, s)"
    using c by (simp add: tryCurrent_def getCurrentAdapter_def)
  have r: "recordFailureCurrent ?s2 = ?s2"
    using c by (simp add: recordFailureCurrent_def)
  have fbk: "tryFallback fb operation ?s2 = (None, ?s2)"
    using c by (simp add: tryFallback_def)
  have cb: "catchBlock env operation fb maxAttempts (attempts + 1) ?err s
              = (None, selectBestAdapter env ?s2)"
    by (simp add: catchBlock_def Let_def r fbk)
  show ?thesis
    using m t cb by (simp add: execute_loop.simps [of env operation fb maxAttempts attempts s])
qed

lemma selectBestAdapter_healthy:
  "firstHealthy (adapters s) (candidateTypes (mode (config s))) = Some t \<Longrightarrow>
     selectBestAdapter env (s\<lparr>warnings := ws\<rparr>) = s\<lparr>warnings := ws, currentAdapter := Some t\<rparr>"
  by (simp add: selectBestAdapter_def Let_def)

text \<open>The selection keeps the handles and always leaves a current adapter.\<close>

lemma adapters_checkAdapterHealth:
  "checkAdapterHealth env t s = (r, s') \<Longrightarrow> adapters s' u = None \<longleftrightarrow> adapters s u = None"
  by (auto simp add: checkAdapterHealth_def Let_def split: option.splits prod.splits if_splits)

lemma adapters_recoverAdapter:
  "recoverAdapter env ts s = (r, s') \<Longrightarrow> adapters s' u = None \<longleftrightarrow> adapters s u = None"
proof (induction ts arbitrary: s)
  case Nil then show ?case by simp
next
  case (Cons t ts)
  obtain h s1 where c: "checkAdapterHealth env t s = (h, s1)"
    by (cases "checkAdapterHealth env t s")
  have "adapters s1 u = None \<longleftrightarrow> adapters s u = None"
    using adapters_checkAdapterHealth [OF c] .
  with Cons c show ?case by (auto split: if_splits)
qed

lemma adapters_selectBestAdapter:
  "adapters (selectBestAdapter env s) u = None \<longleftrightarrow> adapters s u = None"
proof (cases "recoverAdapter env (candidateTypes (mode (config s))) s")
  case (Pair r s1)
  then show ?thesis
    using adapters_recoverAdapter [OF Pair, of u]
    by (auto simp: selectBestAdapter_def Let_def split: option.splits)
qed

lemma currentAdapter_selectBestAdapter: "currentAdapter (selectBestAdapter env s) \<noteq> None"
proof (cases "recoverAdapter env (candidateTypes (mode (config s))) s")
  case (Pair r s1)
  then show ?thesis
    by (cases "mode (config s)")
      (auto simp: selectBestAdapter_def Let_def split: option.splits)
qed

text \<open>Runs of an operation that never rejects, on an engine that has its handles.\<close>

lemma never_rejecting_current:
  assumes n: "\<forall>a w. \<not> isl (fst (operation a w))"
      and m: "attempts < maxAttempts" and c: "currentAdapter s = Some t"
      and h: "adapters s t \<noteq> None"
  shows "\<exists>state r w'. adapters s t = Some state
           \<and> execute_loop env operation fb maxAttempts attempts s
               = (Inr r, recordSuccess t
                           (s\<lparr>world := w', opTrace := opTrace s @ [adapter state]\<rparr>))"
proof -
  from h obtain state where st: "adapters s t = Some state" by blast
  obtain q w' where o: "operation (adapter state) (world s) = (q, w')"
    by (cases "operation (adapter state) (world s)")
  have "\<not> isl (fst (operation (adapter state) (world s)))" using n by blast
  then obtain r where "q = Inr r" using o by (cases q) simp_all
  with o have "operation (adapter state) (world s) = (Inr r, w')" by simp
  then have "execute_loop env operation fb maxAttempts attempts s
               = (Inr r, recordSuccess t
                           (s\<lparr>world := w', opTrace := opTrace s @ [adapter state]\<rparr>))"
    using m c st by (intro execute_loop_resolves) simp_all
  with st show ?thesis by blast
qed

lemma never_rejecting_loop:
  assumes n: "\<forall>a w. \<not> isl (fst (operation a w))" and hd: "\<forall>u. adapters s u \<noteq> None"
  shows "(\<exists>calls. opTrace (snd (execute_loop env operation fb maxAttempts attempts s))
                    = opTrace s @ calls \<and> length calls \<le> 1)
       \<and> warnings (snd (execute_loop env operation fb maxAttempts attempts s))
           = warnings s
               @ (if currentAdapter s = None \<and> attempts < maxAttempts
                  then [(attempts + 1, maxAttempts, Error ''No adapter selected'')] else [])
       \<and> (attempts + 1 < maxAttempts \<or> (currentAdapter s \<noteq> None \<and> attempts < maxAttempts)
            \<longrightarrow> (\<exists>r. fst (execute_loop env operation fb maxAttempts attempts s) = Inr r))"
proof (cases "attempts < maxAttempts")
  case False
  then show ?thesis
    by (simp add: execute_loop.simps [of env operation fb maxAttempts attempts s])
next
  case m: True
  show ?thesis
  proof (cases "currentAdapter s")
    case (Some t)
    have "adapters s t \<noteq> None" using hd by blast
    from never_rejecting_current [OF n m Some this, of env fb]
    obtain state r w' where
      "adapters s t = Some state"
      "execute_loop env operation fb maxAttempts attempts s
         = (Inr r, recordSuccess t (s\<lparr>world := w', opTrace := opTrace s @ [adapter state]\<rparr>))"
      by blast
    then show ?thesis
      using Some by (simp add: opTrace_recordSuccess warnings_recordSuccess)
  next
    case None
    let ?s2 = "s\<lparr>warnings := warnings s
                   @ [(attempts + 1, maxAttempts, Error ''No adapter selected'')]\<rparr>"
    let ?s5 = "selectBestAdapter env ?s2"
    have w5: "warnings ?s5 = warnings s
                @ [(attempts + 1, maxAttempts, Error ''No adapter selected'')]"
      by (simp add: warnings_selectBestAdapter)
    have o5: "opTrace ?s5 = opTrace s"
      by (simp add: opTrace_selectBestAdapter)
    show ?thesis
    proof (cases "attempts + 1 \<ge> maxAttempts")
      case True
      then have "execute_loop env operation fb maxAttempts attempts s
                   = (Inl (Error ''No adapter selected''), ?s5)"
        using execute_loop_no_current [OF m None, of env operation fb] by simp
      then show ?thesis
        using None m True w5 o5 by simp
    next
      case False
      then have e: "execute_loop env operation fb maxAttempts attempts s
                   = execute_loop env operation fb maxAttempts (attempts + 1) ?s5"
        using execute_loop_no_current [OF m None, of env operation fb] by simp
      from False have m5: "attempts + 1 < maxAttempts" by simp
      obtain t where c5: "currentAdapter ?s5 = Some t"
        using currentAdapter_selectBestAdapter [of env ?s2] by blast
      have h5: "adapters ?s5 t \<noteq> None"
        using adapters_selectBestAdapter [of env ?s2 t] hd by simp
      from never_rejecting_current [OF n m5 c5 h5, of env fb]
      obtain state r w' where
        "adapters ?s5 t = Some state"
        "execute_loop env operation fb maxAttempts (attempts + 1) ?s5
           = (Inr r, recordSuccess t
                       (?s5\<lparr>world := w', opTrace := opTrace ?s5 @ [adapter state]\<rparr>))"
        by blast
      then show ?thesis
        unfolding e using None m w5 o5
        by (simp add: opTrace_recordSuccess warnings_recordSuccess)
    qed
  qed
qed

text \<open>
  C9, as the code has it. \<open>execute\<close> classifies an attempt as failed when the \<^verbatim>\<open>try\<close>
  block throws, and only then: every failed attempt it logs carries an error with
  which a call of the operation rejected, or the error of \<^verbatim>\<open>getCurrentAdapter\<close>, "No
  adapter selected" or "Adapter not found"; with an operation that never rejects it is
  the latter.

  An operation that resolves is never a failed attempt, whatever the value it resolves
  with, in particular an \<^verbatim>\<open>AdapterResult\<close> whose \<open>success\<close> is false. When the engine has
  a current adapter and at least one attempt is allowed, the value is returned as the
  result, \<open>consecutiveFailures\<close> of the current handle is 0 and the handle is healthy, no
  failed attempt is logged, the operation was called once (no fallback), and no other
  handle changed. The same holds of the fallback call: when the current adapter is HTTP
  and the operation rejects on it, that attempt is logged as failed and counted for
  HTTP, and a fallback call on Playwright that resolves, with any value, is returned
  and recorded as a success of Playwright.

  On an engine with no current adapter, as the constructor leaves it, the first
  attempt fails with "No adapter selected" before the operation is called. With a
  healthy candidate handle and more than one attempt allowed, the adapter is then
  selected and the operation, called once on it, resolves and is returned and recorded
  as a success, after one failed attempt was logged; with one attempt allowed,
  \<open>execute\<close> throws "No adapter selected" and the operation is not called.

  Altogether, on an engine that has its two handles, an operation that never rejects
  is called at most once, so never a second time as a fallback or a retry; the one
  failed attempt logged, if any, is the first one of an engine with no current adapter;
  and \<open>execute\<close> returns a value when the engine has a current adapter and an attempt
  is allowed, or when two attempts are allowed.
\<close>

theorem value_failure_is_success:
  "(\<exists>ws. warnings (snd (execute env operation options s)) = warnings s @ ws
        \<and> (\<forall>x \<in> set ws.
              (\<exists>a w w'. operation a w = (Inl (snd (snd x)), w'))
            \<or> snd (snd x) = Error ''No adapter selected''
            \<or> (\<exists>t. snd (snd x) = Error (''Adapter not found: '' @ AdapterType_str t)))
        \<and> ((\<forall>a w. \<not> isl (fst (operation a w))) \<longrightarrow>
             (\<forall>x \<in> set ws.
                snd (snd x) = Error ''No adapter selected''
              \<or> (\<exists>t. snd (snd x) = Error (''Adapter not found: '' @ AdapterType_str t)))))
   \<and> (\<forall>t state r w'.
          currentAdapter s = Some t \<and> adapters s t = Some state
        \<and> operation (adapter state) (world s) = (Inr r, w')
        \<and> 0 < maxAttemptsOf options s
        \<longrightarrow> execute env operation options s
              = (Inr r,
                 recordSuccess t (s\<lparr>world := w', opTrace := opTrace s @ [adapter state]\<rparr>))
          \<and> map_option consecutiveFailures
               (adapters (snd (execute env operation options s)) t) = Some 0
          \<and> map_option healthy (adapters (snd (execute env operation options s)) t)
              = Some True
          \<and> warnings (snd (execute env operation options s)) = warnings s
          \<and> opTrace (snd (execute env operation options s)) = opTrace s @ [adapter state]
          \<and> (\<forall>u. u \<noteq> t \<longrightarrow>
                adapters (snd (execute env operation options s)) u = adapters s u))
   \<and> (\<forall>hs ps e r wa wb.
          currentAdapter s = Some HTTP \<and> adapters s HTTP = Some hs
        \<and> adapters s PLAYWRIGHT = Some ps \<and> healthy ps
        \<and> fallbackToPlaywright options \<and> 0 < maxAttemptsOf options s
        \<and> operation (adapter hs) (world s) = (Inl e, wa)
        \<and> operation (adapter ps) wa = (Inr r, wb)
        \<longrightarrow> fst (execute env operation options s) = Inr r
          \<and> warnings (snd (execute env operation options s))
              = warnings s @ [(1, maxAttemptsOf options s, e)]
          \<and> opTrace (snd (execute env operation options s))
              = opTrace s @ [adapter hs, adapter ps]
          \<and> adapters (snd (execute env operation options s)) PLAYWRIGHT
              = Some (ps\<lparr>consecutiveFailures := 0, healthy := True\<rparr>)
          \<and> map_option consecutiveFailures
               (adapters (snd (execute env operation options s)) HTTP)
              = Some (consecutiveFailures hs + 1))
   \<and> (\<forall>t state r w'.
          currentAdapter s = None
        \<and> firstHealthy (adapters s) (candidateTypes (mode (config s))) = Some t
        \<and> adapters s t = Some state
        \<and> operation (adapter state) (world s) = (Inr r, w')
        \<longrightarrow> (1 < maxAttemptsOf options s \<longrightarrow>
                fst (execute env operation options s) = Inr r
              \<and> warnings (snd (execute env operation options s))
                  = warnings s @ [(1, maxAttemptsOf options s, Error ''No adapter selected'')]
              \<and> opTrace (snd (execute env operation options s)) = opTrace s @ [adapter state]
              \<and> currentAdapter (snd (execute env operation options s)) = Some t
              \<and> adapters (snd (execute env operation options s)) t
                  = Some (state\<lparr>consecutiveFailures := 0, healthy := True\<rparr>)
              \<and> (\<forall>u. u \<noteq> t \<longrightarrow>
                    adapters (snd (execute env operation options s)) u = adapters s u))
          \<and> (maxAttemptsOf options s = 1 \<longrightarrow>
                execute env operation options s
                  = (Inl (Error ''No adapter selected''),
                     s\<lparr>warnings := warnings s @ [(1, 1, Error ''No adapter selected'')],
                       currentAdapter := Some t\<rparr>)))
   \<and> ((\<forall>a w. \<not> isl (fst (operation a w)))
        \<and> adapters s HTTP \<noteq> None \<and> adapters s PLAYWRIGHT \<noteq> None
        \<longrightarrow> (\<exists>calls. opTrace (snd (execute env operation options s)) = opTrace s @ calls
                      \<and> length calls \<le> 1)
          \<and> warnings (snd (execute env operation options s))
              = warnings s
                  @ (if currentAdapter s = None \<and> 0 < maxAttemptsOf options s
                     then [(1, maxAttemptsOf options s, Error ''No adapter selected'')]
                     else [])
          \<and> (1 < maxAttemptsOf options s
                \<or> (currentAdapter s \<noteq> None \<and> 0 < maxAttemptsOf options s)
              \<longrightarrow> (\<exists>r. fst (execute env operation options s) = Inr r)))"
proof -
  have general: "(\<forall>a w. \<not> isl (fst (operation a w)))
        \<and> adapters s HTTP \<noteq> None \<and> adapters s PLAYWRIGHT \<noteq> None
        \<longrightarrow> (\<exists>calls. opTrace (snd (execute env operation options s)) = opTrace s @ calls
                      \<and> length calls \<le> 1)
          \<and> warnings (snd (execute env operation options s))
              = warnings s
                  @ (if currentAdapter s = None \<and> 0 < maxAttemptsOf options s
                     then [(1, maxAttemptsOf options s, Error ''No adapter selected'')]
                     else [])
          \<and> (1 < maxAttemptsOf options s
                \<or> (currentAdapter s \<noteq> None \<and> 0 < maxAttemptsOf options s)
              \<longrightarrow> (\<exists>r. fst (execute env operation options s) = Inr r))"
  proof
    assume a: "(\<forall>a w. \<not> isl (fst (operation a w)))
        \<and> adapters s HTTP \<noteq> None \<and> adapters s PLAYWRIGHT \<noteq> None"
    then have n: "\<forall>a w. \<not> isl (fst (operation a w))" by simp
    have hd: "\<forall>u. adapters s u \<noteq> None"
    proof
      fix u show "adapters s u \<noteq> None" using a by (cases u) simp_all
    qed
    from never_rejecting_loop
           [OF n hd, of env "fallbackToPlaywright options" "maxAttemptsOf options s" 0]
    show "(\<exists>calls. opTrace (snd (execute env operation options s)) = opTrace s @ calls
                      \<and> length calls \<le> 1)
          \<and> warnings (snd (execute env operation options s))
              = warnings s
                  @ (if currentAdapter s = None \<and> 0 < maxAttemptsOf options s
                     then [(1, maxAttemptsOf options s, Error ''No adapter selected'')]
                     else [])
          \<and> (1 < maxAttemptsOf options s
                \<or> (currentAdapter s \<noteq> None \<and> 0 < maxAttemptsOf options s)
              \<longrightarrow> (\<exists>r. fst (execute env operation options s) = Inr r))"
      by (simp add: execute_def)
  qed
  have rest: "(\<exists>ws. warnings (snd (execute env operation options s)) = warnings s @ ws
        \<and> (\<forall>x \<in> set ws.
              (\<exists>a w w'. operation a w = (Inl (snd (snd x)), w'))
            \<or> snd (snd x) = Error ''No adapter selected''
            \<or> (\<exists>t. snd (snd x) = Error (''Adapter not found: '' @ AdapterType_str t)))
        \<and> ((\<forall>a w. \<not> isl (fst (operation a w))) \<longrightarrow>
             (\<forall>x \<in> set ws.
                snd (snd x) = Error ''No adapter selected''
              \<or> (\<exists>t. snd (snd x) = Error (''Adapter not found: '' @ AdapterType_str t)))))
   \<and> (\<forall>t state r w'.
          currentAdapter s = Some t \<and> adapters s t = Some state
        \<and> operation (adapter state) (world s) = (Inr r, w')
        \<and> 0 < maxAttemptsOf options s
        \<longrightarrow> execute env operation options s
              = (Inr r,
                 recordSuccess t (s\<lparr>world := w', opTrace := opTrace s @ [adapter state]\<rparr>))
          \<and> map_option consecutiveFailures
               (adapters (snd (execute env operation options s)) t) = Some 0
          \<and> map_option healthy (adapters (snd (execute env operation options s)) t)
              = Some True
          \<and> warnings (snd (execute env operation options s)) = warnings s
          \<and> opTrace (snd (execute env operation options s)) = opTrace s @ [adapter state]
          \<and> (\<forall>u. u \<noteq> t \<longrightarrow>
                adapters (snd (execute env operation options s)) u = adapters s u))
   \<and> (\<forall>hs ps e r wa wb.
          currentAdapter s = Some HTTP \<and> adapters s HTTP = Some hs
        \<and> adapters s PLAYWRIGHT = Some ps \<and> healthy ps
        \<and> fallbackToPlaywright options \<and> 0 < maxAttemptsOf options s
        \<and> operation (adapter hs) (world s) = (Inl e, wa)
        \<and> operation (adapter ps) wa = (Inr r, wb)
        \<longrightarrow> fst (execute env operation options s) = Inr r
          \<and> warnings (snd (execute env operation options s))
              = warnings s @ [(1, maxAttemptsOf options s, e)]
          \<and> opTrace (snd (execute env operation options s))
              = opTrace s @ [adapter hs, adapter ps]
          \<and> adapters (snd (execute env operation options s)) PLAYWRIGHT
              = Some (ps\<lparr>consecutiveFailures := 0, healthy := True\<rparr>)
          \<and> map_option consecutiveFailures
               (adapters (snd (execute env operation options s)) HTTP)
              = Some (consecutiveFailures hs + 1))
   \<and> (\<forall>t state r w'.
          currentAdapter s = None
        \<and> firstHealthy (adapters s) (candidateTypes (mode (config s))) = Some t
        \<and> adapters s t = Some state
        \<and> operation (adapter state) (world s) = (Inr r, w')
        \<longrightarrow> (1 < maxAttemptsOf options s \<longrightarrow>
                fst (execute env operation options s) = Inr r
              \<and> warnings (snd (execute env operation options s))
                  = warnings s @ [(1, maxAttemptsOf options s, Error ''No adapter selected'')]
              \<and> opTrace (snd (execute env operation options s)) = opTrace s @ [adapter state]
              \<and> currentAdapter (snd (execute env operation options s)) = Some t
              \<and> adapters (snd (execute env operation options s)) t
                  = Some (state\<lparr>consecutiveFailures := 0, healthy := True\<rparr>)
              \<and> (\<forall>u. u \<noteq> t \<longrightarrow>
                    adapters (snd (execute env operation options s)) u = adapters s u))
          \<and> (maxAttemptsOf options s = 1 \<longrightarrow>
                execute env operation options s
                  = (Inl (Error ''No adapter selected''),
                     s\<lparr>warnings := warnings s @ [(1, 1, Error ''No adapter selected'')],
                       currentAdapter := Some t\<rparr>)))"
  proof (intro conjI allI impI)
    obtain r s' where e: "execute env operation options s = (r, s')"
      by (cases "execute env operation options s")
    then have "execute_loop env operation (fallbackToPlaywright options)
                 (maxAttemptsOf options s) 0 s = (r, s')"
      by (simp add: execute_def)
    from execute_loop_failed_attempts [OF this]
    obtain ws where ws: "warnings s' = warnings s @ ws"
      "\<forall>x \<in> set ws.
          (\<exists>a w w'. operation a w = (Inl (snd (snd x)), w'))
        \<or> snd (snd x) = Error ''No adapter selected''
        \<or> (\<exists>t. snd (snd x) = Error (''Adapter not found: '' @ AdapterType_str t))"
      by blast
    have "(\<forall>a w. \<not> isl (fst (operation a w))) \<longrightarrow>
               (\<forall>x \<in> set ws.
                  snd (snd x) = Error ''No adapter selected''
                \<or> (\<exists>t. snd (snd x) = Error (''Adapter not found: '' @ AdapterType_str t)))"
    proof (intro impI ballI)
      fix x
      assume n: "\<forall>a w. \<not> isl (fst (operation a w))" and x: "x \<in> set ws"
      have "\<not> (\<exists>a w w'. operation a w = (Inl (snd (snd x)), w'))"
      proof
        assume "\<exists>a w w'. operation a w = (Inl (snd (snd x)), w')"
        then obtain a w w' where "operation a w = (Inl (snd (snd x)), w')" by blast
        then have "isl (fst (operation a w))" by simp
        with n show False by blast
      qed
      with ws(2) x show "snd (snd x) = Error ''No adapter selected''
                \<or> (\<exists>t. snd (snd x) = Error (''Adapter not found: '' @ AdapterType_str t))"
        by blast
    qed
    with ws show "\<exists>ws. warnings (snd (execute env operation options s)) = warnings s @ ws
          \<and> (\<forall>x \<in> set ws.
                (\<exists>a w w'. operation a w = (Inl (snd (snd x)), w'))
              \<or> snd (snd x) = Error ''No adapter selected''
              \<or> (\<exists>t. snd (snd x) = Error (''Adapter not found: '' @ AdapterType_str t)))
          \<and> ((\<forall>a w. \<not> isl (fst (operation a w))) \<longrightarrow>
               (\<forall>x \<in> set ws.
                  snd (snd x) = Error ''No adapter selected''
                \<or> (\<exists>t. snd (snd x) = Error (''Adapter not found: '' @ AdapterType_str t))))"
      unfolding e by (intro exI [of _ ws]) simp
  next
    fix t state r w'
    assume h: "currentAdapter s = Some t \<and> adapters s t = Some state
          \<and> operation (adapter state) (world s) = (Inr r, w')
          \<and> 0 < maxAttemptsOf options s"
    then have e: "execute env operation options s
               = (Inr r, recordSuccess t (s\<lparr>world := w', opTrace := opTrace s @ [adapter state]\<rparr>))"
      unfolding execute_def by (intro execute_loop_resolves) simp_all
    show "execute env operation options s
            = (Inr r, recordSuccess t (s\<lparr>world := w', opTrace := opTrace s @ [adapter state]\<rparr>))"
      by (rule e)
    show "map_option consecutiveFailures
            (adapters (snd (execute env operation options s)) t) = Some 0"
      unfolding e using h by (simp add: recordSuccess_def)
    show "map_option healthy (adapters (snd (execute env operation options s)) t) = Some True"
      unfolding e using h by (simp add: recordSuccess_def)
    show "warnings (snd (execute env operation options s)) = warnings s"
      unfolding e using h by (simp add: recordSuccess_def)
    show "opTrace (snd (execute env operation options s)) = opTrace s @ [adapter state]"
      unfolding e using h by (simp add: recordSuccess_def)
    fix u
    assume "u \<noteq> t"
    then show "adapters (snd (execute env operation options s)) u = adapters s u"
      unfolding e using h by (simp add: recordSuccess_def)
  next
    fix hs ps e r wa wb
    assume h: "currentAdapter s = Some HTTP \<and> adapters s HTTP = Some hs
          \<and> adapters s PLAYWRIGHT = Some ps \<and> healthy ps
          \<and> fallbackToPlaywright options \<and> 0 < maxAttemptsOf options s
          \<and> operation (adapter hs) (world s) = (Inl e, wa)
          \<and> operation (adapter ps) wa = (Inr r, wb)"
    then have f: "fallbackToPlaywright options = True" by simp
    from h have "\<exists>s'. execute_loop env operation True (maxAttemptsOf options s) 0 s = (Inr r, s')
              \<and> warnings s' = warnings s @ [(0 + 1, maxAttemptsOf options s, e)]
              \<and> opTrace s' = opTrace s @ [adapter hs, adapter ps]
              \<and> adapters s' PLAYWRIGHT = Some (ps\<lparr>consecutiveFailures := 0, healthy := True\<rparr>)
              \<and> map_option consecutiveFailures (adapters s' HTTP)
                  = Some (consecutiveFailures hs + 1)"
      by (intro execute_loop_fallback_resolves [where wa = wa and wb = wb]) simp_all
    then obtain s' where s': "execute env operation options s = (Inr r, s')"
        "warnings s' = warnings s @ [(1, maxAttemptsOf options s, e)]"
        "opTrace s' = opTrace s @ [adapter hs, adapter ps]"
        "adapters s' PLAYWRIGHT = Some (ps\<lparr>consecutiveFailures := 0, healthy := True\<rparr>)"
        "map_option consecutiveFailures (adapters s' HTTP) = Some (consecutiveFailures hs + 1)"
      unfolding execute_def f by auto
    show "fst (execute env operation options s) = Inr r" using s' by simp
    show "warnings (snd (execute env operation options s))
            = warnings s @ [(1, maxAttemptsOf options s, e)]" using s' by simp
    show "opTrace (snd (execute env operation options s)) = opTrace s @ [adapter hs, adapter ps]"
      using s' by simp
    show "adapters (snd (execute env operation options s)) PLAYWRIGHT
            = Some (ps\<lparr>consecutiveFailures := 0, healthy := True\<rparr>)" using s' by simp
    show "map_option consecutiveFailures
            (adapters (snd (execute env operation options s)) HTTP)
            = Some (consecutiveFailures hs + 1)" using s' by simp
  next
    fix t state r w'
    assume h: "currentAdapter s = None
          \<and> firstHealthy (adapters s) (candidateTypes (mode (config s))) = Some t
          \<and> adapters s t = Some state
          \<and> operation (adapter state) (world s) = (Inr r, w')"
    assume m: "1 < maxAttemptsOf options s"
    let ?n = "maxAttemptsOf options s"
    let ?s5 = "s\<lparr>warnings := warnings s @ [(1, ?n, Error ''No adapter selected'')],
                 currentAdapter := Some t\<rparr>"
    have "execute env operation options s
            = execute_loop env operation (fallbackToPlaywright options) ?n 1 ?s5"
      unfolding execute_def
      using execute_loop_no_current
              [of 0 ?n s env operation "fallbackToPlaywright options"] h m
            selectBestAdapter_healthy [of s t env]
      by simp
    also have "\<dots> = (Inr r, recordSuccess t
                               (?s5\<lparr>world := w', opTrace := opTrace ?s5 @ [adapter state]\<rparr>))"
      using h m by (intro execute_loop_resolves) simp_all
    finally have e: "execute env operation options s
            = (Inr r, recordSuccess t
                        (?s5\<lparr>world := w', opTrace := opTrace ?s5 @ [adapter state]\<rparr>))" .
    show "fst (execute env operation options s) = Inr r" unfolding e by simp
    show "warnings (snd (execute env operation options s))
            = warnings s @ [(1, maxAttemptsOf options s, Error ''No adapter selected'')]"
      unfolding e using h by (simp add: recordSuccess_def)
    show "opTrace (snd (execute env operation options s)) = opTrace s @ [adapter state]"
      unfolding e using h by (simp add: recordSuccess_def)
    show "currentAdapter (snd (execute env operation options s)) = Some t"
      unfolding e using h by (simp add: recordSuccess_def)
    show "adapters (snd (execute env operation options s)) t
            = Some (state\<lparr>consecutiveFailures := 0, healthy := True\<rparr>)"
      unfolding e using h by (simp add: recordSuccess_def)
    fix u
    assume "u \<noteq> t"
    then show "adapters (snd (execute env operation options s)) u = adapters s u"
      unfolding e using h by (simp add: recordSuccess_def)
  next
    fix t state r w'
    assume h: "currentAdapter s = None
          \<and> firstHealthy (adapters s) (candidateTypes (mode (config s))) = Some t
          \<and> adapters s t = Some state
          \<and> operation (adapter state) (world s) = (Inr r, w')"
    assume m: "maxAttemptsOf options s = 1"
    show "execute env operation options s
            = (Inl (Error ''No adapter selected''),
               s\<lparr>warnings := warnings s @ [(1, 1, Error ''No adapter selected'')],
                 currentAdapter := Some t\<rparr>)"
      unfolding execute_def m
      using execute_loop_no_current
              [of 0 1 s env operation "fallbackToPlaywright options"] h
            selectBestAdapter_healthy [of s t env]
      by simp
  qed
  from rest general show ?thesis by blast
qed

lemma constructed_engine_fields:
  "currentAdapter constructed_engine = None"
  "firstHealthy (adapters constructed_engine)
     (candidateTypes (mode (config constructed_engine))) = Some HTTP"
  "adapters constructed_engine HTTP
     = Some \<lparr>adapter = HTTP, healthy = True, lastHealthCheck = 0, consecutiveFailures = 0\<rparr>"
  "adapters constructed_engine PLAYWRIGHT
     = Some \<lparr>adapter = PLAYWRIGHT, healthy = True, lastHealthCheck = 0,
             consecutiveFailures = 0\<rparr>"
  "world constructed_engine = 0" "warnings constructed_engine = []"
  "opTrace constructed_engine = []" "retryAttempts (config constructed_engine) = 3"
  by (simp_all add: constructed_engine_def new_StrategyEngine_def default_config_def)

theorem value_failure_is_success_witness:
  "currentAdapter fresh_engine = Some HTTP
   \<and> adapters fresh_engine HTTP
       = Some \<lparr>adapter = HTTP, healthy = True, lastHealthCheck = 0, consecutiveFailures = 0\<rparr>
   \<and> rate_limited_op HTTP (world fresh_engine)
       = (Inr (failure ''rate limited'' (Some RATE_LIMITED)), 1)
   \<and> \<not> success (failure ''rate limited'' (Some RATE_LIMITED) :: unit AdapterResult)
   \<and> 0 < maxAttemptsOf default_options fresh_engine
   \<and> fst (execute (static_env (\<lambda>t. True)) rate_limited_op default_options fresh_engine)
       = Inr (failure ''rate limited'' (Some RATE_LIMITED))
   \<and> warnings (snd (execute (static_env (\<lambda>t. True)) rate_limited_op default_options
                     fresh_engine)) = []
   \<and> opTrace (snd (execute (static_env (\<lambda>t. True)) rate_limited_op default_options
                     fresh_engine)) = [HTTP]
   \<and> adapters fresh_engine PLAYWRIGHT
       = Some \<lparr>adapter = PLAYWRIGHT, healthy = True, lastHealthCheck = 0,
               consecutiveFailures = 0\<rparr>
   \<and> fallbackToPlaywright default_options
   \<and> http_rejects_op HTTP (world fresh_engine) = (Inl (Error ''http down''), 1)
   \<and> http_rejects_op PLAYWRIGHT 1 = (Inr (failure ''rate limited'' (Some RATE_LIMITED)), 2)
   \<and> fst (execute (static_env (\<lambda>t. True)) http_rejects_op default_options fresh_engine)
       = Inr (failure ''rate limited'' (Some RATE_LIMITED))
   \<and> warnings (snd (execute (static_env (\<lambda>t. True)) http_rejects_op default_options
                     fresh_engine)) = [(1, 3, Error ''http down'')]
   \<and> opTrace (snd (execute (static_env (\<lambda>t. True)) http_rejects_op default_options
                     fresh_engine)) = [HTTP, PLAYWRIGHT]
   \<and> currentAdapter constructed_engine = None
   \<and> firstHealthy (adapters constructed_engine)
        (candidateTypes (mode (config constructed_engine))) = Some HTTP
   \<and> 1 < maxAttemptsOf default_options constructed_engine
   \<and> rate_limited_op HTTP (world constructed_engine)
       = (Inr (failure ''rate limited'' (Some RATE_LIMITED)), 1)
   \<and> fst (execute (static_env (\<lambda>t. True)) rate_limited_op default_options
             constructed_engine)
       = Inr (failure ''rate limited'' (Some RATE_LIMITED))
   \<and> warnings (snd (execute (static_env (\<lambda>t. True)) rate_limited_op default_options
                     constructed_engine)) = [(1, 3, Error ''No adapter selected'')]
   \<and> opTrace (snd (execute (static_env (\<lambda>t. True)) rate_limited_op default_options
                     constructed_engine)) = [HTTP]"
proof -
  let ?env = "static_env (\<lambda>t. True)"
  let ?hs = "\<lparr>adapter = HTTP, healthy = True, lastHealthCheck = 0, consecutiveFailures = 0\<rparr>"
  let ?ps = "\<lparr>adapter = PLAYWRIGHT, healthy = True, lastHealthCheck = 0,
              consecutiveFailures = 0\<rparr>"
  have a: "currentAdapter fresh_engine = Some HTTP" by (simp add: fresh_engine_fields)
  have b: "adapters fresh_engine HTTP = Some ?hs"
    by (simp add: engine_eval)
  have p: "adapters fresh_engine PLAYWRIGHT = Some ?ps"
    by (simp add: engine_eval)
  have c: "rate_limited_op (adapter ?hs) (world fresh_engine)
       = (Inr (failure ''rate limited'' (Some RATE_LIMITED)), 1)"
    by (simp add: rate_limited_op_def fresh_engine_fields)
  have d: "0 < maxAttemptsOf default_options fresh_engine"
    by (simp add: maxAttemptsOf_def default_options_def fresh_engine_fields)
  have f: "fallbackToPlaywright default_options" by (simp add: default_options_def)
  have n: "maxAttemptsOf default_options fresh_engine = 3"
    by (simp add: maxAttemptsOf_def default_options_def fresh_engine_fields)
  have h1: "http_rejects_op (adapter ?hs) (world fresh_engine) = (Inl (Error ''http down''), 1)"
    by (simp add: http_rejects_op_def fresh_engine_fields)
  have h2: "http_rejects_op (adapter ?ps) 1
              = (Inr (failure ''rate limited'' (Some RATE_LIMITED)), 2)"
    by (simp add: http_rejects_op_def)
  have ca: "currentAdapter constructed_engine = None"
    by (simp add: constructed_engine_fields)
  have cf: "firstHealthy (adapters constructed_engine)
              (candidateTypes (mode (config constructed_engine))) = Some HTTP"
    by (simp add: constructed_engine_fields)
  have cb: "adapters constructed_engine HTTP = Some ?hs"
    by (simp add: constructed_engine_fields)
  have cc: "rate_limited_op (adapter ?hs) (world constructed_engine)
       = (Inr (failure ''rate limited'' (Some RATE_LIMITED)), 1)"
    by (simp add: rate_limited_op_def constructed_engine_fields)
  have cn: "maxAttemptsOf default_options constructed_engine = 3"
    by (simp add: maxAttemptsOf_def default_options_def constructed_engine_fields)
  have cm: "1 < maxAttemptsOf default_options constructed_engine"
    by (simp add: cn)
  note resolved =
    value_failure_is_success
      [where operation = rate_limited_op and env = ?env and options = default_options
         and s = fresh_engine,
       THEN conjunct2, THEN conjunct1, rule_format,
       where t = HTTP and state = ?hs and w' = 1, OF conjI [OF a conjI [OF b conjI [OF c d]]]]
  note fallback =
    value_failure_is_success
      [where operation = http_rejects_op and env = ?env and options = default_options
         and s = fresh_engine,
       THEN conjunct2, THEN conjunct2, THEN conjunct1, rule_format,
       where hs = ?hs and ps = ?ps and wa = 1 and wb = 2,
       OF conjI [OF a conjI [OF b conjI [OF p conjI [OF _ conjI [OF f conjI [OF d
            conjI [OF h1 h2]]]]]]]]
  note unselected =
    value_failure_is_success
      [where operation = rate_limited_op and env = ?env and options = default_options
         and s = constructed_engine,
       THEN conjunct2, THEN conjunct2, THEN conjunct2, THEN conjunct1, rule_format,
       where t = HTTP and state = ?hs and w' = 1,
       OF conjI [OF ca conjI [OF cf conjI [OF cb cc]]], THEN conjunct1, rule_format, OF cm]
  have r1: "fst (execute ?env rate_limited_op default_options fresh_engine)
              = Inr (failure ''rate limited'' (Some RATE_LIMITED))"
           "warnings (snd (execute ?env rate_limited_op default_options fresh_engine)) = []"
           "opTrace (snd (execute ?env rate_limited_op default_options fresh_engine)) = [HTTP]"
    using resolved by (auto simp: fresh_engine_fields)
  have r2: "fst (execute ?env http_rejects_op default_options fresh_engine)
              = Inr (failure ''rate limited'' (Some RATE_LIMITED))"
           "warnings (snd (execute ?env http_rejects_op default_options fresh_engine))
              = [(1, 3, Error ''http down'')]"
           "opTrace (snd (execute ?env http_rejects_op default_options fresh_engine))
              = [HTTP, PLAYWRIGHT]"
    using fallback by (auto simp: fresh_engine_fields n)
  have r3: "fst (execute ?env rate_limited_op default_options constructed_engine)
              = Inr (failure ''rate limited'' (Some RATE_LIMITED))"
           "warnings (snd (execute ?env rate_limited_op default_options constructed_engine))
              = [(1, 3, Error ''No adapter selected'')]"
           "opTrace (snd (execute ?env rate_limited_op default_options constructed_engine))
              = [HTTP]"
    using unselected by (auto simp: constructed_engine_fields cn)
  have nf: "\<not> success (failure ''rate limited'' (Some RATE_LIMITED) :: unit AdapterResult)"
    by (simp add: failure_def)
  show ?thesis
    using a b p c d f h1 h2 ca cf cm cc r1 r2 r3 nf by simp
qed

text \<open>
  C9 as stated fails on an engine that was built and not initialised, as the client
  builds it: it has no current adapter. The operation resolves, with a failed
  \<^verbatim>\<open>AdapterResult\<close>, on every adapter and in every state; it never rejects. Yet
  \<open>execute\<close> logs the first attempt as failed, with "No adapter selected", before it
  calls the operation once and returns its value.
\<close>

theorem value_failure_is_success_counterexample:
  "(\<forall>a w. fst (rate_limited_op a w) = Inr (failure ''rate limited'' (Some RATE_LIMITED)))
   \<and> constructed_engine = new_StrategyEngine default_config 0
   \<and> fst (execute (static_env (\<lambda>t. True)) rate_limited_op default_options
             constructed_engine)
       = Inr (failure ''rate limited'' (Some RATE_LIMITED))
   \<and> warnings (snd (execute (static_env (\<lambda>t. True)) rate_limited_op default_options
                     constructed_engine)) = [(1, 3, Error ''No adapter selected'')]
   \<and> opTrace (snd (execute (static_env (\<lambda>t. True)) rate_limited_op default_options
                     constructed_engine)) = [HTTP]"
  by (simp add: engine_eval constructed_engine_def rate_limited_op_def)

section \<open>Routing in Auto mode\<close>

text \<open>
  C4, as the code has it. Let the mode be Auto, the HTTP handle unhealthy and the
  Playwright handle healthy. Then \<open>selectBestAdapter\<close> makes Playwright the current
  adapter, without a probe. \<open>execute\<close> does not select before its first attempt: it calls
  the operation on the adapter that is current when it starts. If that is Playwright,
  the first call goes to Playwright. If it is still HTTP, the first call goes to HTTP;
  when that call rejects and \<open>fallbackToPlaywright\<close> is set, the next call goes to
  Playwright within the same attempt, and when this one resolves its value is the
  result of \<open>execute\<close>, after exactly these two calls.
\<close>

theorem auto_fallback_routing:
  assumes "mode (config s) = Mode_AUTO"
      and "adapters s HTTP = Some hs" and "adapter hs = HTTP" and "\<not> healthy hs"
      and "adapters s PLAYWRIGHT = Some ps" and "adapter ps = PLAYWRIGHT" and "healthy ps"
      and "0 < maxAttemptsOf options s"
  shows "selectBestAdapter env s = s\<lparr>currentAdapter := Some PLAYWRIGHT\<rparr>
       \<and> (currentAdapter s = Some PLAYWRIGHT \<longrightarrow>
            (\<exists>rest. opTrace (snd (execute env operation options s))
                       = opTrace s @ PLAYWRIGHT # rest))
       \<and> (currentAdapter s = Some HTTP \<longrightarrow>
            (\<exists>rest. opTrace (snd (execute env operation options s)) = opTrace s @ HTTP # rest)
          \<and> (\<forall>e w1. operation HTTP (world s) = (Inl e, w1) \<and> fallbackToPlaywright options \<longrightarrow>
                (\<exists>rest. opTrace (snd (execute env operation options s))
                           = opTrace s @ HTTP # PLAYWRIGHT # rest)
              \<and> (\<forall>r w2. operation PLAYWRIGHT w1 = (Inr r, w2) \<longrightarrow>
                    fst (execute env operation options s) = Inr r
                  \<and> opTrace (snd (execute env operation options s))
                      = opTrace s @ [HTTP, PLAYWRIGHT])))"
proof (intro conjI impI allI)
  show "selectBestAdapter env s = s\<lparr>currentAdapter := Some PLAYWRIGHT\<rparr>"
    using assms(1,2,4,5,7) by (rule selectBestAdapter_auto)
next
  assume c: "currentAdapter s = Some PLAYWRIGHT"
  from execute_loop_first_call [OF assms(8) c assms(5)]
  show "\<exists>rest. opTrace (snd (execute env operation options s)) = opTrace s @ PLAYWRIGHT # rest"
    by (simp add: execute_def assms(6))
next
  assume c: "currentAdapter s = Some HTTP"
  from execute_loop_first_call [OF assms(8) c assms(2)]
  show "\<exists>rest. opTrace (snd (execute env operation options s)) = opTrace s @ HTTP # rest"
    by (simp add: execute_def assms(3))
next
  fix e w1
  assume c: "currentAdapter s = Some HTTP"
     and o: "operation HTTP (world s) = (Inl e, w1) \<and> fallbackToPlaywright options"
  from http_fails_fallback [OF assms(8) c assms(2,3,5,7,6), of operation e w1 env] o
  show "\<exists>rest. opTrace (snd (execute env operation options s))
                 = opTrace s @ HTTP # PLAYWRIGHT # rest"
    by (simp add: execute_def)
next
  fix e w1 r w2
  assume c: "currentAdapter s = Some HTTP"
     and o: "operation HTTP (world s) = (Inl e, w1) \<and> fallbackToPlaywright options"
     and p: "operation PLAYWRIGHT w1 = (Inr r, w2)"
  from http_fails_fallback [OF assms(8) c assms(2,3,5,7,6), of operation e w1 env] o p
  show "fst (execute env operation options s) = Inr r"
    by (simp add: execute_def)
next
  fix e w1 r w2
  assume c: "currentAdapter s = Some HTTP"
     and o: "operation HTTP (world s) = (Inl e, w1) \<and> fallbackToPlaywright options"
     and p: "operation PLAYWRIGHT w1 = (Inr r, w2)"
  from http_fails_fallback [OF assms(8) c assms(2,3,5,7,6), of operation e w1 env] o p
  show "opTrace (snd (execute env operation options s)) = opTrace s @ [HTTP, PLAYWRIGHT]"
    by (simp add: execute_def)
qed

lemma http_outage_engine_fields:
  "mode (config http_outage_engine) = Mode_AUTO"
  "adapters http_outage_engine HTTP
     = Some \<lparr>adapter = HTTP, healthy = False, lastHealthCheck = 0, consecutiveFailures = 3\<rparr>"
  "adapters http_outage_engine PLAYWRIGHT
     = Some \<lparr>adapter = PLAYWRIGHT, healthy = True, lastHealthCheck = 0,
             consecutiveFailures = 0\<rparr>"
  "currentAdapter http_outage_engine = Some HTTP"
  "opTrace http_outage_engine = []" "world http_outage_engine = 0"
  "retryAttempts (config http_outage_engine) = 3"
  by (simp_all add: engine_eval)

theorem auto_fallback_routing_witness:
  "mode (config http_outage_engine) = Mode_AUTO
   \<and> map_option healthy (adapters http_outage_engine HTTP) = Some False
   \<and> map_option healthy (adapters http_outage_engine PLAYWRIGHT) = Some True
   \<and> currentAdapter http_outage_engine = Some HTTP
   \<and> http_down_op HTTP (world http_outage_engine) = (Inl (Error ''http down''), 1)
   \<and> http_down_op PLAYWRIGHT 1 = (Inr PLAYWRIGHT, 2)
   \<and> currentAdapter (selectBestAdapter (static_env (\<lambda>t. t = PLAYWRIGHT)) http_outage_engine)
       = Some PLAYWRIGHT
   \<and> fst (execute (static_env (\<lambda>t. t = PLAYWRIGHT)) http_down_op default_options
             http_outage_engine) = Inr PLAYWRIGHT
   \<and> opTrace (snd (execute (static_env (\<lambda>t. t = PLAYWRIGHT)) http_down_op default_options
                    http_outage_engine)) = [HTTP, PLAYWRIGHT]"
proof -
  have m: "0 < maxAttemptsOf default_options http_outage_engine"
    by (simp add: maxAttemptsOf_def default_options_def http_outage_engine_fields)
  have o: "http_down_op HTTP (world http_outage_engine) = (Inl (Error ''http down''), 1)"
          "http_down_op PLAYWRIGHT 1 = (Inr PLAYWRIGHT, 2)"
    by (simp_all add: http_down_op_def http_outage_engine_fields)
  have f: "fallbackToPlaywright default_options" by (simp add: default_options_def)
  show ?thesis
    using auto_fallback_routing
            [where env = "static_env (\<lambda>t. t = PLAYWRIGHT)" and operation = http_down_op,
             OF http_outage_engine_fields(1) http_outage_engine_fields(2)
                _ _ http_outage_engine_fields(3) _ _ m] o f
    by (simp add: http_outage_engine_fields)
qed

text \<open>
  C4 as stated fails when the HTTP handle became unhealthy through the periodic health
  check: the check updates the handle and leaves \<open>currentAdapter\<close> as it is. After
  \<^verbatim>\<open>initialize\<close> and three timer ticks with HTTP unreachable, the mode is Auto, the HTTP
  handle is unhealthy and the Playwright handle healthy; \<open>execute\<close> then calls the
  operation on HTTP, which resolves, and Playwright is never called.
\<close>

theorem auto_fallback_routing_counterexample:
  "mode (config http_outage_engine) = Mode_AUTO
   \<and> map_option healthy (adapters http_outage_engine HTTP) = Some False
   \<and> map_option healthy (adapters http_outage_engine PLAYWRIGHT) = Some True
   \<and> fst (execute (static_env (\<lambda>t. t = PLAYWRIGHT)) echo_op default_options
             http_outage_engine) = Inr HTTP
   \<and> opTrace (snd (execute (static_env (\<lambda>t. t = PLAYWRIGHT)) echo_op default_options
                    http_outage_engine)) = [HTTP]"
proof -
  have r: "fst (execute (static_env (\<lambda>t. t = PLAYWRIGHT)) echo_op default_options
             http_outage_engine) = Inr HTTP"
    by (simp add: engine_eval echo_op_def)
  have t: "opTrace (snd (execute (static_env (\<lambda>t. t = PLAYWRIGHT)) echo_op default_options
                    http_outage_engine)) = [HTTP]"
    by (simp add: engine_eval echo_op_def)
  show ?thesis using r t by (simp add: http_outage_engine_fields)
qed

section \<open>Forcing an adapter\<close>

text \<open>
  C7, as the code has it. \<open>forceAdapter\<close> of a type without a handle throws "Unknown
  adapter type". For a handle whose \<open>healthy\<close> flag is set it switches \<open>currentAdapter\<close>
  and changes nothing else: no probe is made. For a handle whose flag is not set it
  probes the handle's adapter once; when the probe reports unhealthy it throws
  "Adapter ... is not healthy" and \<open>currentAdapter\<close> keeps its value; when the probe
  reports healthy it switches, and the handle is healthy.
\<close>

theorem force_adapter:
  "(case adapters s t of
      None \<Rightarrow>
        forceAdapter env t s = (Inl (Error (''Unknown adapter type: '' @ AdapterType_str t)), s)
    | Some state \<Rightarrow>
        (healthy state \<longrightarrow> forceAdapter env t s = (Inr (), s\<lparr>currentAdapter := Some t\<rparr>))
      \<and> (\<not> healthy state \<longrightarrow>
           probeTrace (snd (checkAdapterHealth env t s)) = probeTrace s @ [adapter state]
         \<and> fst (checkAdapterHealth env t s) = fst (healthCheck env (adapter state) (world s))
         \<and> (\<not> hc_healthy (fst (checkAdapterHealth env t s)) \<longrightarrow>
              forceAdapter env t s
                = (Inl (Error (''Adapter '' @ AdapterType_str t @ '' is not healthy'')),
                   snd (checkAdapterHealth env t s))
            \<and> currentAdapter (snd (forceAdapter env t s)) = currentAdapter s)
         \<and> (hc_healthy (fst (checkAdapterHealth env t s)) \<longrightarrow>
              forceAdapter env t s
                = (Inr (), (snd (checkAdapterHealth env t s))\<lparr>currentAdapter := Some t\<rparr>)
            \<and> map_option healthy (adapters (snd (forceAdapter env t s)) t) = Some True)))"
proof (cases "adapters s t")
  case None
  then show ?thesis by (simp add: forceAdapter_def)
next
  case (Some state)
  obtain result w' where h: "healthCheck env (adapter state) (world s) = (result, w')"
    by (cases "healthCheck env (adapter state) (world s)")
  show ?thesis
    using Some h
    by (simp add: forceAdapter_def checkAdapterHealth_def Let_def split: prod.splits)
qed

theorem force_adapter_witness:
  "adapters http_outage_engine HTTP
     = Some \<lparr>adapter = HTTP, healthy = False, lastHealthCheck = 0, consecutiveFailures = 3\<rparr>
   \<and> \<not> hc_healthy (fst (checkAdapterHealth (static_env (\<lambda>t. t = PLAYWRIGHT)) HTTP
                          http_outage_engine))
   \<and> fst (forceAdapter (static_env (\<lambda>t. t = PLAYWRIGHT)) HTTP http_outage_engine)
       = Inl (Error ''Adapter http is not healthy'')
   \<and> currentAdapter (snd (forceAdapter (static_env (\<lambda>t. t = PLAYWRIGHT)) HTTP
                           http_outage_engine)) = Some HTTP
   \<and> probeTrace (snd (checkAdapterHealth (static_env (\<lambda>t. t = PLAYWRIGHT)) HTTP
                        http_outage_engine))
       = probeTrace http_outage_engine @ [HTTP]"
proof -
  have p: "\<not> hc_healthy (fst (checkAdapterHealth (static_env (\<lambda>t. t = PLAYWRIGHT)) HTTP
                          http_outage_engine))"
    by (simp add: checkAdapterHealth_def http_outage_engine_fields static_env_def Let_def)
  show ?thesis
    using force_adapter [where s = http_outage_engine and t = HTTP
                           and env = "static_env (\<lambda>t. t = PLAYWRIGHT)"] p
    by (auto simp: http_outage_engine_fields)
qed

text \<open>
  C7 as stated fails for a handle whose flag is set. On the engine just initialised both
  flags are set although no probe was ever made; with a Playwright adapter that is
  unreachable (its probe would report unhealthy), \<open>forceAdapter\<close> switches to it and makes
  no probe.
\<close>

theorem force_adapter_counterexample:
  "map_option healthy (adapters fresh_engine PLAYWRIGHT) = Some True
   \<and> \<not> hc_healthy (fst (healthCheck (static_env (\<lambda>t. False)) PLAYWRIGHT (world fresh_engine)))
   \<and> fst (forceAdapter (static_env (\<lambda>t. False)) PLAYWRIGHT fresh_engine) = Inr ()
   \<and> currentAdapter (snd (forceAdapter (static_env (\<lambda>t. False)) PLAYWRIGHT fresh_engine))
       = Some PLAYWRIGHT
   \<and> probeTrace (snd (forceAdapter (static_env (\<lambda>t. False)) PLAYWRIGHT fresh_engine)) = []"
  by (simp add: engine_eval)


section \<open>Batch publish\<close>

lemma length_itemResults:
  "itemResults publishResource options rids w = Inr rs \<Longrightarrow> length rs = length rids"
proof (induction rids arbitrary: w rs)
  case Nil
  then show ?case by simp
next
  case (Cons rid rids)
  then show ?case
    by (auto split: prod.splits sum.splits)
qed

lemma publishLoop_itemResults:
  "fst (publishLoop publishResource options rids results errors w)
     = (case itemResults publishResource options rids w of
          Inl e \<Rightarrow> Inl e
        | Inr rs \<Rightarrow>
            Inr (results @ map2 itemEntry rids rs,
                 errors @ map (\<lambda>(rid, result). publishErrorMessage (error result) rid)
                            (filter (\<lambda>(rid, result). \<not> itemSucceeded result)
                               (zip rids rs))))"
proof (induction rids arbitrary: results errors w)
  case Nil
  then show ?case by simp
next
  case (Cons rid rids)
  obtain r w' where p: "publishResource rid options w = (r, w')"
    by (cases "publishResource rid options w")
  show ?case
  proof (cases r)
    case (Inl e)
    with p show ?thesis by simp
  next
    case (Inr result)
    show ?thesis
    proof (cases "itemResults publishResource options rids w'")
      case (Inl e)
      with p Inr Cons.IH [of _ _ w'] show ?thesis by simp
    next
      case rs: (Inr rs)
      with p Inr Cons.IH [of _ _ w'] show ?thesis
        by (auto simp: itemEntry_def itemSucceeded_def)
    qed
  qed
qed

lemma no_failed_item:
  "length rs = length rids \<Longrightarrow>
     filter (\<lambda>(rid, result). \<not> itemSucceeded result) (zip rids rs) = []
       \<longleftrightarrow> list_all itemSucceeded rs"
proof (induction rids arbitrary: rs)
  case Nil
  then show ?case by simp
next
  case (Cons rid rids)
  then obtain r rs' where "rs = r # rs'" by (cases rs) auto
  with Cons show ?case by auto
qed

lemma publishResources_itemResults:
  "fst (publishResources publishResource rids options w)
     = (case itemResults publishResource options rids w of
          Inl e \<Rightarrow> Inl e
        | Inr rs \<Rightarrow> Inr (batchResult rids rs))"
proof (cases "itemResults publishResource options rids w")
  case (Inl e)
  then have "fst (publishLoop publishResource options rids [] [] w) = Inl e"
    by (simp add: publishLoop_itemResults)
  then show ?thesis
    using Inl by (cases "publishLoop publishResource options rids [] [] w")
      (simp add: publishResources_def)
next
  case (Inr rs)
  let ?errors = "map (\<lambda>(rid, result). publishErrorMessage (error result) rid)
                   (filter (\<lambda>(rid, result). \<not> itemSucceeded result) (zip rids rs))"
  have l: "fst (publishLoop publishResource options rids [] [] w)
             = Inr (map2 itemEntry rids rs, ?errors)"
    using Inr by (simp add: publishLoop_itemResults)
  have n: "?errors = [] \<longleftrightarrow> list_all itemSucceeded rs"
    using no_failed_item [OF length_itemResults [OF Inr]] by simp
  show ?thesis
    using l Inr n
    by (cases "publishLoop publishResource options rids [] [] w")
      (auto simp: publishResources_def batchResult_def)
qed

text \<open>
  C5, as the code has it. The default \<open>publishResources\<close> calls \<open>publishResource\<close> once per
  item, in order. As long as every call resolves, it returns one entry per item: the
  item's \<open>data\<close>, as the call gave it, when the item's result has \<open>success\<close> and carries
  data; a failed entry with the item's id and error otherwise. So an item whose result
  is a failure does not stop the loop, and the overall \<open>success\<close> holds exactly when
  every item's result has \<open>success\<close> and carries data; the \<open>success\<close> field inside an
  item's data is not looked at. A call that rejects does stop the loop: the rejection
  is the outcome of \<open>publishResources\<close>, no entry is returned and no later item is
  tried. For three items \<open>a\<close>, \<open>b\<close>, \<open>c\<close> whose calls resolve, \<open>b\<close> with a result
  that has \<open>success\<close> false and \<open>a\<close> and \<open>c\<close> with results that have \<open>success\<close> and data
  marked successful, the batch returns the three entries successful, failed,
  successful, and overall \<open>success\<close> false.
\<close>

theorem batch_publish_partial_failure:
  "fst (publishResources publishResource rids options w)
     = (case itemResults publishResource options rids w of
          Inl e \<Rightarrow> Inl e
        | Inr rs \<Rightarrow> Inr (batchResult rids rs))
   \<and> (\<forall>rs. itemResults publishResource options rids w = Inr rs \<longrightarrow>
          (\<exists>res. fst (publishResources publishResource rids options w) = Inr res
             \<and> data res = Some (map2 itemEntry rids rs)
             \<and> length (the (data res)) = length rids
             \<and> (success res \<longleftrightarrow> (\<forall>result \<in> set rs. success result \<and> data result \<noteq> None))))
   \<and> (\<forall>a b c ra rb rc wa wb wc da dc.
          publishResource a options w = (Inr ra, wa) \<and> success ra \<and> data ra = Some da
            \<and> pr_success da
        \<and> publishResource b options wa = (Inr rb, wb) \<and> \<not> success rb
        \<and> publishResource c options wb = (Inr rc, wc) \<and> success rc \<and> data rc = Some dc
            \<and> pr_success dc
        \<longrightarrow> publishResources publishResource [a, b, c] options w
              = (Inr \<lparr>success = False,
                      data = Some [da,
                                   \<lparr>pr_success = False, resourceId = b, publishedUrl = None,
                                    pr_error = error rb\<rparr>,
                                   dc],
                      error = Some (publishErrorMessage (error rb) b),
                      errorCode = None\<rparr>, wc)
            \<and> map pr_success [da, \<lparr>pr_success = False, resourceId = b, publishedUrl = None,
                                    pr_error = error rb\<rparr>, dc]
                = [True, False, True])
   \<and> (\<forall>a b c ra e wa wb.
          publishResource a options w = (Inr ra, wa)
        \<and> publishResource b options wa = (Inl e, wb)
        \<longrightarrow> publishResources publishResource [a, b, c] options w = (Inl e, wb))"
proof (intro conjI allI impI)
  show "fst (publishResources publishResource rids options w)
     = (case itemResults publishResource options rids w of
          Inl e \<Rightarrow> Inl e
        | Inr rs \<Rightarrow> Inr (batchResult rids rs))"
    by (rule publishResources_itemResults)
next
  fix rs
  assume i: "itemResults publishResource options rids w = Inr rs"
  have "fst (publishResources publishResource rids options w) = Inr (batchResult rids rs)"
    using i by (simp add: publishResources_itemResults)
  moreover have "length (map2 itemEntry rids rs) = length rids"
    using length_itemResults [OF i] by simp
  moreover have "list_all itemSucceeded rs
                   \<longleftrightarrow> (\<forall>result \<in> set rs. success result \<and> data result \<noteq> None)"
    by (simp add: list_all_iff itemSucceeded_def)
  ultimately show "\<exists>res. fst (publishResources publishResource rids options w) = Inr res
             \<and> data res = Some (map2 itemEntry rids rs)
             \<and> length (the (data res)) = length rids
             \<and> (success res \<longleftrightarrow> (\<forall>result \<in> set rs. success result \<and> data result \<noteq> None))"
    by (simp add: batchResult_def)
next
  fix a b c ra rb rc wa wb wc da dc
  assume h: "publishResource a options w = (Inr ra, wa) \<and> success ra \<and> data ra = Some da
            \<and> pr_success da
        \<and> publishResource b options wa = (Inr rb, wb) \<and> \<not> success rb
        \<and> publishResource c options wb = (Inr rc, wc) \<and> success rc \<and> data rc = Some dc
            \<and> pr_success dc"
  then show "publishResources publishResource [a, b, c] options w
              = (Inr \<lparr>success = False,
                      data = Some [da,
                                   \<lparr>pr_success = False, resourceId = b, publishedUrl = None,
                                    pr_error = error rb\<rparr>,
                                   dc],
                      error = Some (publishErrorMessage (error rb) b),
                      errorCode = None\<rparr>, wc)"
    by (simp add: publishResources_def)
  show "map pr_success [da, \<lparr>pr_success = False, resourceId = b, publishedUrl = None,
                              pr_error = error rb\<rparr>, dc]
         = [True, False, True]"
    using h by simp
next
  fix a b c ra e wa wb
  assume "publishResource a options w = (Inr ra, wa)
        \<and> publishResource b options wa = (Inl e, wb)"
  then show "publishResources publishResource [a, b, c] options w = (Inl e, wb)"
    by (simp add: publishResources_def)
qed

theorem batch_publish_partial_failure_witness:
  "demo_publish ''a'' () 0
     = (Inr (success_result \<lparr>pr_success = True, resourceId = ''a'',
                              publishedUrl = Some ''https://example.org/a'',
                              pr_error = None\<rparr>), 1)
   \<and> demo_publish ''b'' () 1 = (Inr (failure ''quota exceeded'' None), 2)
   \<and> demo_publish ''c'' () 2
     = (Inr (success_result \<lparr>pr_success = True, resourceId = ''c'',
                              publishedUrl = Some ''https://example.org/c'',
                              pr_error = None\<rparr>), 3)
   \<and> publishResources demo_publish [''a'', ''b'', ''c''] () 0
     = (Inr \<lparr>success = False,
             data = Some [\<lparr>pr_success = True, resourceId = ''a'',
                           publishedUrl = Some ''https://example.org/a'', pr_error = None\<rparr>,
                          \<lparr>pr_success = False, resourceId = ''b'', publishedUrl = None,
                           pr_error = Some ''quota exceeded''\<rparr>,
                          \<lparr>pr_success = True, resourceId = ''c'',
                           publishedUrl = Some ''https://example.org/c'', pr_error = None\<rparr>],
             error = Some ''quota exceeded'',
             errorCode = None\<rparr>, 3)
   \<and> itemResults demo_publish () [''a'', ''b'', ''c''] 0
     = Inr [success_result \<lparr>pr_success = True, resourceId = ''a'',
                             publishedUrl = Some ''https://example.org/a'', pr_error = None\<rparr>,
            failure ''quota exceeded'' None,
            success_result \<lparr>pr_success = True, resourceId = ''c'',
                             publishedUrl = Some ''https://example.org/c'', pr_error = None\<rparr>]
   \<and> demo_publish_rejecting ''b'' () 1 = (Inl (Error ''socket hang up''), 2)
   \<and> publishResources demo_publish_rejecting [''a'', ''b'', ''c''] () 0
     = (Inl (Error ''socket hang up''), 2)"
proof -
  have a: "demo_publish ''a'' () 0
     = (Inr (success_result \<lparr>pr_success = True, resourceId = ''a'',
                              publishedUrl = Some ''https://example.org/a'',
                              pr_error = None\<rparr>), 1)"
    by (simp add: demo_publish_def)
  have b: "demo_publish ''b'' () 1 = (Inr (failure ''quota exceeded'' None), 2)"
    by (simp add: demo_publish_def)
  have c: "demo_publish ''c'' () 2
     = (Inr (success_result \<lparr>pr_success = True, resourceId = ''c'',
                              publishedUrl = Some ''https://example.org/c'',
                              pr_error = None\<rparr>), 3)"
    by (simp add: demo_publish_def)
  have i: "itemResults demo_publish () [''a'', ''b'', ''c''] 0
     = Inr [success_result \<lparr>pr_success = True, resourceId = ''a'',
                             publishedUrl = Some ''https://example.org/a'', pr_error = None\<rparr>,
            failure ''quota exceeded'' None,
            success_result \<lparr>pr_success = True, resourceId = ''c'',
                             publishedUrl = Some ''https://example.org/c'', pr_error = None\<rparr>]"
    by (simp add: demo_publish_def)
  have ra: "demo_publish_rejecting ''a'' () 0
     = (Inr (success_result \<lparr>pr_success = True, resourceId = ''a'',
                              publishedUrl = Some ''https://example.org/a'',
                              pr_error = None\<rparr>), 1)"
    by (simp add: demo_publish_rejecting_def)
  have rb: "demo_publish_rejecting ''b'' () 1 = (Inl (Error ''socket hang up''), 2)"
    by (simp add: demo_publish_rejecting_def)
  have "publishResources demo_publish [''a'', ''b'', ''c''] () 0
     = (Inr \<lparr>success = False,
             data = Some [\<lparr>pr_success = True, resourceId = ''a'',
                           publishedUrl = Some ''https://example.org/a'', pr_error = None\<rparr>,
                          \<lparr>pr_success = False, resourceId = ''b'', publishedUrl = None,
                           pr_error = error (failure ''quota exceeded'' None
                                              :: PublishResult AdapterResult)\<rparr>,
                          \<lparr>pr_success = True, resourceId = ''c'',
                           publishedUrl = Some ''https://example.org/c'', pr_error = None\<rparr>],
             error = Some (publishErrorMessage
                             (error (failure ''quota exceeded'' None
                                       :: PublishResult AdapterResult)) ''b''),
             errorCode = None\<rparr>, 3)"
    using batch_publish_partial_failure
            [where publishResource = demo_publish and options = "()" and w = 0
               and rids = "[]",
             THEN conjunct2, THEN conjunct2, THEN conjunct1, rule_format,
             where a = "''a''" and b = "''b''" and c = "''c''" and wa = 1 and wb = 2 and wc = 3,
             THEN conjunct1]
          a b c
    by (simp add: success_result_def failure_def)
  moreover have "publishResources demo_publish_rejecting [''a'', ''b'', ''c''] () 0
     = (Inl (Error ''socket hang up''), 2)"
    using batch_publish_partial_failure
            [where publishResource = demo_publish_rejecting and options = "()" and w = 0
               and rids = "[]",
             THEN conjunct2, THEN conjunct2, THEN conjunct2, rule_format,
             where a = "''a''" and b = "''b''" and c = "''c''" and wa = 1 and wb = 2]
          ra rb
    by simp
  ultimately show ?thesis
    using a b c i rb by (simp add: failure_def publishErrorMessage_def)
qed

text \<open>
  C5 as stated fails in two ways. \<^verbatim>\<open>HttpAdapter.publishResources\<close> runs this loop, over
  \<^verbatim>\<open>HttpAdapter.publishResource\<close>, when its batch request rejects. When the server then
  answers the publish request of \<open>b\<close> with \<^verbatim>\<open>success: false\<close>, publishing \<open>b\<close> has failed
  and its entry says so, but the item's result has \<open>success\<close>, no error is collected and
  the overall \<open>success\<close> is true. And when the call for \<open>b\<close> rejects, the loop is left:
  the batch rejects after two calls, with no entry for \<open>a\<close> and without trying \<open>c\<close>.
\<close>

theorem batch_publish_partial_failure_counterexample:
  "publishResources (HttpAdapter_publishResource demo_post) [''a'', ''b'', ''c''] () 0
     = (Inr \<lparr>success = True,
             data = Some [\<lparr>pr_success = True, resourceId = ''a'',
                           publishedUrl = Some ''https://example.org/episodes/a/publish'',
                           pr_error = None\<rparr>,
                          \<lparr>pr_success = False, resourceId = ''b'', publishedUrl = None,
                           pr_error = None\<rparr>,
                          \<lparr>pr_success = True, resourceId = ''c'',
                           publishedUrl = Some ''https://example.org/episodes/c/publish'',
                           pr_error = None\<rparr>],
             error = None,
             errorCode = None\<rparr>, 3)
   \<and> publishResources demo_publish_rejecting [''a'', ''b'', ''c''] () 0
     = (Inl (Error ''socket hang up''), 2)"
  by (simp add: publishResources_def HttpAdapter_publishResource_def demo_post_def
        demo_publish_rejecting_def success_result_def)

section \<open>Login with a saved session\<close>

text \<open>
  C8, as the code has it. When \<open>login\<close> is called without \<open>force\<close> and both session files
  exist, it returns success with no error, starts no login flow and leaves the browser
  and the store as they are. When the user info file parses to a value other than
  \<^verbatim>\<open>null\<close>, the identity returned is what the properties \<^verbatim>\<open>userId\<close> and \<^verbatim>\<open>userName\<close> of
  that value give, \<^verbatim>\<open>undefined\<close> for a property the value does not have, and it
  replaces the identity cached in memory. When the file does not parse, or parses to
  \<^verbatim>\<open>null\<close>, nothing is restored: the identity cached in memory is returned as it was,
  \<^verbatim>\<open>undefined\<close> if there was none, and the manager is left as it was.
\<close>

theorem login_short_circuit:
  assumes "\<not> force options" and "hasValidSession (sessionStorage am)"
  shows "auth_success (fst (login br options am))
       \<and> auth_error (fst (login br options am)) = None
       \<and> loginFlows (snd (login br options am)) = loginFlows am
       \<and> browser (snd (login br options am)) = browser am
       \<and> sessionStorage (snd (login br options am)) = sessionStorage am
       \<and> (\<forall>uid uname.
              userInfoFile (sessionStorage am) = Some (Parses (JsonValue uid uname)) \<longrightarrow>
              auth_userId (fst (login br options am)) = uid
            \<and> auth_userName (fst (login br options am)) = uname
            \<and> userInfo (snd (login br options am))
                = Some \<lparr>userId = uid, userName = uname\<rparr>)
       \<and> (userInfoFile (sessionStorage am) = Some Malformed
            \<or> userInfoFile (sessionStorage am) = Some (Parses JsonNull) \<longrightarrow>
              auth_userId (fst (login br options am)) = cachedUserId (userInfo am)
            \<and> auth_userName (fst (login br options am)) = cachedUserName (userInfo am)
            \<and> snd (login br options am) = am)"
  using assms
  by (auto simp: login_def loadUserInfo_def authResultOk_def cachedUserId_def
        cachedUserName_def Let_def
      split: option.splits json_file.splits parsed_user_info.splits)

theorem login_short_circuit_witness:
  "\<not> force default_login_options \<and> hasValidSession (sessionStorage saved_manager)
   \<and> login demo_browser default_login_options saved_manager
       = (\<lparr>auth_success = True, auth_userId = JString ''u1'', auth_userName = JString ''Ann'',
           auth_error = None\<rparr>,
          saved_manager\<lparr>userInfo := Some \<lparr>userId = JString ''u1'',
                                           userName = JString ''Ann''\<rparr>\<rparr>)
   \<and> loginFlows (snd (login demo_browser default_login_options saved_manager)) = []"
proof -
  have f: "\<not> force default_login_options" by (simp add: default_login_options_def)
  have v: "hasValidSession (sessionStorage saved_manager)"
    by (simp add: hasValidSession_def saved_manager_def)
  have l: "loginFlows (snd (login demo_browser default_login_options saved_manager))
             = loginFlows saved_manager"
    using login_short_circuit [OF f v, of demo_browser] by blast
  have e: "login demo_browser default_login_options saved_manager
       = (\<lparr>auth_success = True, auth_userId = JString ''u1'', auth_userName = JString ''Ann'',
           auth_error = None\<rparr>,
          saved_manager\<lparr>userInfo := Some \<lparr>userId = JString ''u1'',
                                           userName = JString ''Ann''\<rparr>\<rparr>)"
    by (simp add: login_def default_login_options_def hasValidSession_def saved_manager_def
          loadUserInfo_def authResultOk_def cachedUserId_def cachedUserName_def)
  show ?thesis using f v l e by (simp add: saved_manager_def)
qed

text \<open>
  C8 as stated fails when the user info file exists and holds no identity; the validity
  check, which only looks for the two files, passes all the same. With a file that does
  not parse, nothing is restored from the store, and the success carries no user id and
  no user name. With a file that holds the empty object, the success carries no user id
  and no user name either, and the identity that was cached in memory is replaced by
  one without them.
\<close>

theorem login_short_circuit_counterexample:
  "\<not> force default_login_options \<and> hasValidSession (sessionStorage damaged_manager)
   \<and> login demo_browser default_login_options damaged_manager
       = (\<lparr>auth_success = True, auth_userId = JUndefined, auth_userName = JUndefined,
           auth_error = None\<rparr>, damaged_manager)
   \<and> hasValidSession (sessionStorage emptied_manager)
   \<and> userInfo emptied_manager = Some \<lparr>userId = JString ''u1'', userName = JString ''Ann''\<rparr>
   \<and> login demo_browser default_login_options emptied_manager
       = (\<lparr>auth_success = True, auth_userId = JUndefined, auth_userName = JUndefined,
           auth_error = None\<rparr>,
          emptied_manager\<lparr>userInfo := Some \<lparr>userId = JUndefined,
                                             userName = JUndefined\<rparr>\<rparr>)"
  by (simp add: login_def default_login_options_def hasValidSession_def damaged_manager_def
        emptied_manager_def loadUserInfo_def authResultOk_def cachedUserId_def
        cachedUserName_def)

section \<open>The vault\<close>

lemma char_of_byte_of_char: "char_of_byte (byte_of_char c) = c"
  by (simp add: char_of_byte_def byte_of_char_def unat_of_nat)

lemma byte_of_char_of_byte: "byte_of_char (char_of_byte b) = b"
proof -
  have "unat b < 256" using unsigned_less [of b, where ?'a = nat] by simp
  then show ?thesis by (simp add: char_of_byte_def byte_of_char_def)
qed

lemma demo_platform_contract: "platform_contract demo_platform"
  by (auto simp: platform_contract_def demo_platform_def demo_tag_def comp_def
        char_of_byte_of_char byte_of_char_of_byte min_def)

text \<open>The layout of the blob: what \<open>decrypt\<close> cuts out of what \<open>encrypt\<close> put together.\<close>

lemma blob_layout:
  assumes "length salt = 64" and "length iv = 16" and "length tag = 16"
  shows "subarray (salt @ iv @ tag @ ct) 0 SALT_LENGTH = salt"
    and "subarray (salt @ iv @ tag @ ct) SALT_LENGTH (SALT_LENGTH + IV_LENGTH) = iv"
    and "subarray (salt @ iv @ tag @ ct) (SALT_LENGTH + IV_LENGTH)
           (SALT_LENGTH + IV_LENGTH + TAG_LENGTH) = tag"
    and "drop (SALT_LENGTH + IV_LENGTH + TAG_LENGTH) (salt @ iv @ tag @ ct) = ct"
  using assms by (simp_all add: subarray_def SALT_LENGTH_def IV_LENGTH_def TAG_LENGTH_def)

lemma encrypt_blob:
  assumes "platform_contract pf"
  shows "encrypt pf X P salt iv
           = Inr (base64_string pf
                    (salt @ iv @ snd (gcm_seal pf (deriveKey pf P salt) iv (utf8_bytes pf X))
                      @ fst (gcm_seal pf (deriveKey pf P salt) iv (utf8_bytes pf X))))"
  using assms by (simp add: encrypt_def platform_contract_def Let_def split: prod.splits)

lemma decrypt_blob:
  assumes "platform_contract pf" and "length salt = 64" and "length iv = 16"
      and "length tag = 16"
  shows "decrypt pf (base64_string pf (salt @ iv @ tag @ ct)) P'
           = (case gcm_open pf (deriveKey pf P' salt) iv tag ct of
                None \<Rightarrow>
                  Inl (Error ''Failed to decrypt data - invalid password or corrupted data'')
              | Some m \<Rightarrow> Inr (utf8_string pf m))"
proof -
  have b: "base64_bytes pf (base64_string pf (salt @ iv @ tag @ ct)) = salt @ iv @ tag @ ct"
    using assms(1) by (simp add: platform_contract_def)
  show ?thesis
    unfolding decrypt_def b Let_def blob_layout [OF assms(2-4)] by simp
qed


lemma tag_length: "platform_contract pf \<Longrightarrow> length (snd (gcm_seal pf key iv m)) = 16"
  by (simp add: platform_contract_def)




subsection \<open>The second stand-in keeps all four contracts\<close>








lemma demo_lengths: "length demo_salt = 64" "length demo_iv = 16"
  by (simp_all add: demo_salt_def demo_iv_def)








section \<open>The integrity check\<close>

text \<open>
  C10. Let the runtime keep its contract and let \<open>salt\<close> and \<open>iv\<close> be the 64 and 16 random
  bytes. Every blob \<open>encrypt\<close> returns decodes to at least 96 bytes (salt, IV and tag,
  then the ciphertext) and passes \<open>verifyIntegrity\<close>. And \<open>verifyIntegrity\<close> is the length
  test alone: it holds for every input that decodes to at least 96 bytes, and for no
  other, whatever \<open>decrypt\<close> makes of the input.
\<close>

theorem fresh_blob_passes_integrity:
  assumes "platform_contract pf" and "length salt = 64" and "length iv = 16"
  shows "(\<exists>blob. encrypt pf X P salt iv = Inr blob
            \<and> 96 \<le> length (base64_bytes pf blob)
            \<and> verifyIntegrity pf blob)
       \<and> (\<forall>s. verifyIntegrity pf s \<longleftrightarrow> 96 \<le> length (base64_bytes pf s))"
proof
  let ?key = "deriveKey pf P salt"
  let ?ct = "fst (gcm_seal pf ?key iv (utf8_bytes pf X))"
  let ?tag = "snd (gcm_seal pf ?key iv (utf8_bytes pf X))"
  let ?blob = "base64_string pf (salt @ iv @ ?tag @ ?ct)"
  have e: "encrypt pf X P salt iv = Inr ?blob"
    by (rule encrypt_blob [OF assms(1)])
  have b: "base64_bytes pf ?blob = salt @ iv @ ?tag @ ?ct"
    using assms(1) by (simp add: platform_contract_def)
  have l: "96 \<le> length (base64_bytes pf ?blob)"
    unfolding b using assms(2,3) tag_length [OF assms(1), of ?key iv "utf8_bytes pf X"]
    by simp
  then have "verifyIntegrity pf ?blob"
    by (simp add: verifyIntegrity_def Let_def SALT_LENGTH_def IV_LENGTH_def TAG_LENGTH_def)
  with e l show "\<exists>blob. encrypt pf X P salt iv = Inr blob
            \<and> 96 \<le> length (base64_bytes pf blob) \<and> verifyIntegrity pf blob"
    by blast
  show "\<forall>s. verifyIntegrity pf s \<longleftrightarrow> 96 \<le> length (base64_bytes pf s)"
    by (auto simp: verifyIntegrity_def Let_def SALT_LENGTH_def IV_LENGTH_def TAG_LENGTH_def)
qed

lemma demo_key: "deriveKey demo_platform ''pw'' demo_salt = [112, 119] @ replicate 30 7"
  by (simp add: deriveKey_def demo_platform_def demo_salt_def byte_of_char_def
        ITERATIONS_def KEY_LENGTH_def)

lemma demo_key_sum: "sum_list (deriveKey demo_platform ''pw'' demo_salt) = 185"
  unfolding demo_key by (simp add: sum_list_replicate)

lemma demo_seal:
  "gcm_seal demo_platform (deriveKey demo_platform ''pw'' demo_salt) demo_iv
     (utf8_bytes demo_platform (ascii ''abc'')) = ([26, 27, 28], replicate 15 185 @ [10])"
proof -
  have "gcm_seal demo_platform (deriveKey demo_platform ''pw'' demo_salt) demo_iv
     (utf8_bytes demo_platform (ascii ''abc''))
     = (map (\<lambda>b. b + sum_list (deriveKey demo_platform ''pw'' demo_salt)) [97, 98, 99],
        demo_tag (deriveKey demo_platform ''pw'' demo_salt)
          (map (\<lambda>b. b + sum_list (deriveKey demo_platform ''pw'' demo_salt)) [97, 98, 99]))"
    by (simp add: demo_platform_def ascii_def)
  then show ?thesis
    unfolding demo_key_sum by (simp add: demo_tag_def demo_key_sum)
qed

lemma demo_ct_bytes: "demo_ct = [26, 27, 28]" "demo_tag_abc = replicate 15 185 @ [10]"
  by (simp_all add: demo_ct_def demo_tag_abc_def demo_seal)

lemma demo_open_corrupted:
  "gcm_open demo_platform (deriveKey demo_platform ''pw'' demo_salt) demo_iv
     demo_tag_abc (demo_ct[1 := demo_ct ! 1 + 1]) = None"
proof -
  have "gcm_open demo_platform (deriveKey demo_platform ''pw'' demo_salt) demo_iv
     demo_tag_abc (demo_ct[1 := demo_ct ! 1 + 1])
     = (if demo_tag_abc = demo_tag (deriveKey demo_platform ''pw'' demo_salt) (demo_ct[1 := demo_ct ! 1 + 1])
        then Some (map (\<lambda>b. b - sum_list (deriveKey demo_platform ''pw'' demo_salt)) (demo_ct[1 := demo_ct ! 1 + 1]))
        else None)"
    by (simp add: demo_platform_def)
  then show ?thesis
    by (simp add: demo_ct_bytes demo_tag_def demo_key_sum)
qed

theorem fresh_blob_passes_integrity_witness:
  "platform_contract demo_platform \<and> length demo_salt = 64 \<and> length demo_iv = 16
   \<and> (\<exists>blob. encrypt demo_platform (ascii ''abc'') ''pw'' demo_salt demo_iv = Inr blob
          \<and> verifyIntegrity demo_platform blob)
   \<and> length (base64_bytes demo_platform (the (tokenFile corrupted_storage))) = 99
   \<and> verifyIntegrity demo_platform (the (tokenFile corrupted_storage))
   \<and> decrypt demo_platform (the (tokenFile corrupted_storage)) ''pw''
       = Inl (Error ''Failed to decrypt data - invalid password or corrupted data'')"
proof -
  note th = fresh_blob_passes_integrity
              [OF demo_platform_contract demo_lengths, of "ascii ''abc''" "''pw''"]
  have b: "base64_bytes demo_platform (the (tokenFile corrupted_storage))
             = demo_salt @ demo_iv @ demo_tag_abc @ demo_ct[1 := demo_ct ! 1 + 1]"
    using demo_platform_contract by (simp add: platform_contract_def corrupted_storage_def)
  have l: "length (base64_bytes demo_platform (the (tokenFile corrupted_storage))) = 99"
    unfolding b by (simp add: demo_lengths demo_ct_bytes)
  have v: "verifyIntegrity demo_platform (the (tokenFile corrupted_storage))"
    using th l by simp
  have t: "length demo_tag_abc = 16" by (simp add: demo_ct_bytes)
  have f: "the (tokenFile corrupted_storage)
             = base64_string demo_platform
                 (demo_salt @ demo_iv @ demo_tag_abc @ demo_ct[1 := demo_ct ! 1 + 1])"
    by (simp add: corrupted_storage_def)
  have d: "decrypt demo_platform (the (tokenFile corrupted_storage)) ''pw''
       = Inl (Error ''Failed to decrypt data - invalid password or corrupted data'')"
    unfolding f decrypt_blob [OF demo_platform_contract demo_lengths t] demo_open_corrupted
    by simp
  from th have "\<exists>blob. encrypt demo_platform (ascii ''abc'') ''pw'' demo_salt demo_iv = Inr blob
          \<and> verifyIntegrity demo_platform blob"
    by blast
  then show ?thesis
    using demo_platform_contract demo_lengths l v d by blast
qed

section \<open>Loading a corrupted token file\<close>

text \<open>
  C6: what \<open>load\<close> does with a corrupted blob. Take a blob written by \<open>save\<close> and replace
  one byte of its ciphertext, so that GCM rejects the tag. The blob has its old length:
  it passes \<open>verifyIntegrity\<close>, the only test after which \<open>load\<close> clears the file.
  \<open>decrypt\<close> then throws, the outer \<^verbatim>\<open>catch\<close> returns \<^verbatim>\<open>null\<close>, and the storage is
  unchanged: the corrupted file is still there. In general, \<open>load\<close> never removes a
  file whose content decodes to at least 96 bytes.
\<close>

theorem corrupt_blob_is_kept:
  assumes "platform_contract pf" and "length salt = 64" and "length iv = 16"
      and "gcm_seal pf (deriveKey pf (password ts) salt) iv (utf8_bytes pf X) = (ct, tag)"
      and "i < length ct" and "x \<noteq> ct ! i"
      and "tokenFile ts = Some (base64_string pf (salt @ iv @ tag @ ct[i := x]))"
      and "gcm_open pf (deriveKey pf (password ts) salt) iv tag (ct[i := x]) = None"
  shows "verifyIntegrity pf (base64_string pf (salt @ iv @ tag @ ct[i := x]))
       \<and> token_load pf ts = (None, ts)
       \<and> tokenFile (snd (token_load pf ts))
           = Some (base64_string pf (salt @ iv @ tag @ ct[i := x]))
       \<and> (\<forall>ts' blob. tokenFile ts' = Some blob \<and> 96 \<le> length (base64_bytes pf blob)
             \<longrightarrow> snd (token_load pf ts') = ts')"
proof -
  let ?blob = "base64_string pf (salt @ iv @ tag @ ct[i := x])"
  have t: "length tag = 16"
    using tag_length [OF assms(1), of "deriveKey pf (password ts) salt" iv "utf8_bytes pf X"]
          assms(4) by simp
  have b: "base64_bytes pf ?blob = salt @ iv @ tag @ ct[i := x]"
    using assms(1) by (simp add: platform_contract_def)
  have v: "verifyIntegrity pf ?blob"
    unfolding verifyIntegrity_def b using assms(2,3) t
    by (simp add: Let_def SALT_LENGTH_def IV_LENGTH_def TAG_LENGTH_def)
  have d: "decrypt pf ?blob (password ts)
             = Inl (Error ''Failed to decrypt data - invalid password or corrupted data'')"
    using decrypt_blob [OF assms(1-3) t, of "ct[i := x]" "password ts"] assms(8) by simp
  have l: "token_load pf ts = (None, ts)"
    using assms(7) v d by (simp add: token_load_def)
  have g: "\<forall>ts' blob. tokenFile ts' = Some blob \<and> 96 \<le> length (base64_bytes pf blob)
             \<longrightarrow> snd (token_load pf ts') = ts'"
    by (auto simp: token_load_def verifyIntegrity_def Let_def SALT_LENGTH_def IV_LENGTH_def
          TAG_LENGTH_def split: sum.splits option.splits)
  show ?thesis using v l g assms(7) by simp
qed

theorem corrupt_blob_is_kept_witness:
  "platform_contract demo_platform \<and> length demo_salt = 64 \<and> length demo_iv = 16
   \<and> gcm_seal demo_platform (deriveKey demo_platform (password corrupted_storage) demo_salt)
       demo_iv (utf8_bytes demo_platform (ascii ''abc'')) = (demo_ct, demo_tag_abc)
   \<and> 1 < length demo_ct \<and> demo_ct ! 1 + 1 \<noteq> demo_ct ! 1
   \<and> gcm_open demo_platform (deriveKey demo_platform (password corrupted_storage) demo_salt)
       demo_iv demo_tag_abc (demo_ct[1 := demo_ct ! 1 + 1]) = None
   \<and> token_load demo_platform corrupted_storage = (None, corrupted_storage)
   \<and> tokenFile corrupted_storage \<noteq> None"
proof -
  have p: "password corrupted_storage = ''pw''" by (simp add: corrupted_storage_def)
  have s: "gcm_seal demo_platform
             (deriveKey demo_platform (password corrupted_storage) demo_salt)
             demo_iv (utf8_bytes demo_platform (ascii ''abc'')) = (demo_ct, demo_tag_abc)"
    by (simp add: p demo_ct_def demo_tag_abc_def)
  have i: "1 < length demo_ct" by (simp add: demo_ct_bytes)
  have x: "demo_ct ! 1 + 1 \<noteq> demo_ct ! 1" by (simp add: demo_ct_bytes)
  have f: "tokenFile corrupted_storage
             = Some (base64_string demo_platform
                       (demo_salt @ demo_iv @ demo_tag_abc @ demo_ct[1 := demo_ct ! 1 + 1]))"
    by (simp add: corrupted_storage_def)
  have g: "gcm_open demo_platform
             (deriveKey demo_platform (password corrupted_storage) demo_salt)
             demo_iv demo_tag_abc (demo_ct[1 := demo_ct ! 1 + 1]) = None"
    unfolding p by (rule demo_open_corrupted)
  have l: "token_load demo_platform corrupted_storage = (None, corrupted_storage)"
    using corrupt_blob_is_kept [OF demo_platform_contract demo_lengths s i x f g] by blast
  show ?thesis
    using demo_platform_contract demo_lengths s i x g l f by simp
qed

end
